theory Spec2Isabelle
  imports Complex_Main "HOL-Library.Word" "HOL-Library.Signed_Division"
    "HOL-Library.Code_Target_Numeral"
begin

section \<open>Numbers, vectors and key states\<close>

text \<open>
  The viewer computes with Go's \<open>float32\<close> and \<open>float64\<close>. Both are idealised here as
  real numbers: finite values, no rounding, the two zeros identified. Comparisons,
  \<open>math.Min\<close> and \<open>math.Max\<close> are exact on floats, so the properties below that rest on
  them alone do not depend on the idealisation. Unsigned 32-bit integers are words, Go's
  \<open>int\<close> (64 bits on the amd64 targets of the Makefile) is \<open>int\<close> with the wrap-around
  written out where it matters.
\<close>

type_synonym float32 = real
type_synonym float64 = real
type_synonym uint32 = "32 word"
type_synonym vec3 = "float32 \<times> float32 \<times> float32"

text \<open>The operations of \<open>mgl32.Vec3\<close> that the program calls.\<close>

fun vAdd :: "vec3 \<Rightarrow> vec3 \<Rightarrow> vec3" where
  "vAdd (a0, a1, a2) (b0, b1, b2) = (a0 + b0, a1 + b1, a2 + b2)"

fun vSub :: "vec3 \<Rightarrow> vec3 \<Rightarrow> vec3" where
  "vSub (a0, a1, a2) (b0, b1, b2) = (a0 - b0, a1 - b1, a2 - b2)"

fun vMul :: "vec3 \<Rightarrow> float32 \<Rightarrow> vec3" where
  "vMul (a0, a1, a2) c = (a0 * c, a1 * c, a2 * c)"

fun vCross :: "vec3 \<Rightarrow> vec3 \<Rightarrow> vec3" where
  "vCross (a0, a1, a2) (b0, b1, b2) = (a1 * b2 - a2 * b1, a2 * b0 - a0 * b2, a0 * b1 - a1 * b0)"

fun vLen :: "vec3 \<Rightarrow> float32" where
  "vLen (a0, a1, a2) = sqrt (a0 * a0 + a1 * a1 + a2 * a2)"

definition vNormalize :: "vec3 \<Rightarrow> vec3" where
  "vNormalize v = vMul v (1 / vLen v)"

definition DegToRad :: "float32 \<Rightarrow> float32" where
  "DegToRad angle = angle * pi / 180"

text \<open>\<open>glfw.Action\<close>: what \<open>window.GetKey\<close> reports for a key.\<close>

datatype Action = Release | Press | Repeat

record keyboard =
  KeyLeftShift :: Action
  KeyW :: Action
  KeyS :: Action
  KeyA :: Action
  KeyD :: Action
  KeyF1 :: Action

datatype error = FatalOpen string | PanicIndexOutOfRange

section \<open>Bounding boxes\<close>

record Bounds =
  minX :: float32
  minY :: float32
  minZ :: float32
  maxX :: float32
  maxY :: float32
  maxZ :: float32

definition combineBounds :: "Bounds \<Rightarrow> Bounds \<Rightarrow> Bounds" where
  "combineBounds a b =
     \<lparr> minX = min (minX a) (minX b),
       minY = min (minY a) (minY b),
       minZ = min (minZ a) (minZ b),
       maxX = max (maxX a) (maxX b),
       maxY = max (maxY a) (maxY b),
       maxZ = max (maxZ a) (maxZ b) \<rparr>"

section \<open>Meshes, the scene and the program state\<close>

record MeshData =
  vertices :: "float32 list"
  indices :: "uint32 list"
  bounds :: Bounds
  vao :: uint32
  vbo :: uint32
  ebo :: uint32

text \<open>\<open>scene_bounds\<close> is the field \<open>bounds\<close> of the Go struct \<open>Scene\<close>.\<close>

record Scene =
  meshes :: "MeshData list"
  scene_bounds :: Bounds

text \<open>What \<open>log.Printf\<close> writes, by call site; the arguments are kept, not formatted.\<close>

datatype logEvent =
    LogLoaded int int
  | LogMeshBounds Bounds
  | LogWarnNoMeshData string

text \<open>
  The package-level variables of the program, followed by the state of its collaborators
  that the program changes: the names handed out by \<open>gl.GenVertexArrays\<close> and
  \<open>gl.GenBuffers\<close> and not yet deleted, the window title, the log, and the number of
  file-selection dialogs shown so far. Buffer uploads and draw calls change GPU-side
  state only, which the program never reads back; they are left out.
\<close>

record world =
  cameraPos :: vec3
  cameraFront :: vec3
  cameraUp :: vec3
  yaw :: float64
  pitch :: float64
  lastX :: float64
  lastY :: float64
  firstMouse :: bool
  deltaTime :: float64
  lastFrame :: float64
  currentSpeedIndex :: int
  lastShiftState :: Action
  lastDirectory :: string
  scene :: Scene
  glNextName :: uint32
  glArrays :: "uint32 list"
  glBuffers :: "uint32 list"
  windowTitle :: string
  logged :: "logEvent list"
  dialogsShown :: nat

definition baseSpeed :: float64 where
  "baseSpeed = 100"

definition mouseSensitivity :: float64 where
  "mouseSensitivity = 1 / 10"

definition speedMultipliers :: "float64 list" where
  "speedMultipliers = [1, 5, 10, 20, 40]"

section \<open>Camera control\<close>

text \<open>The front vector of the camera from yaw and pitch, as both call sites compute it.\<close>

definition direction :: "float64 \<Rightarrow> float64 \<Rightarrow> vec3" where
  "direction y p =
     (cos (DegToRad y) * cos (DegToRad p),
      sin (DegToRad p),
      sin (DegToRad y) * cos (DegToRad p))"

definition mouseCallback :: "float64 \<Rightarrow> float64 \<Rightarrow> world \<Rightarrow> world" where
  "mouseCallback xpos ypos w =
     (if firstMouse w then w\<lparr>lastX := xpos, lastY := ypos, firstMouse := False\<rparr>
      else
        let xoffset = (xpos - lastX w) * mouseSensitivity;
            yoffset = (lastY w - ypos) * mouseSensitivity;
            yaw1 = yaw w + xoffset;
            pitch1 = pitch w + yoffset;
            pitch2 = (if pitch1 > 89 then 89 else pitch1);
            pitch3 = (if pitch2 < - 89 then - 89 else pitch2)
        in w\<lparr>lastX := xpos, lastY := ypos, yaw := yaw1, pitch := pitch3,
              cameraFront := vNormalize (direction yaw1 pitch3)\<rparr>)"

text \<open>The cursor samples of a session, delivered one callback at a time.\<close>

fun mouseSamples :: "(float64 \<times> float64) list \<Rightarrow> world \<Rightarrow> world" where
  "mouseSamples [] w = w"
| "mouseSamples ((xpos, ypos) # rest) w = mouseSamples rest (mouseCallback xpos ypos w)"

text \<open>
  \<open>processInput\<close>. Go's \<open>%\<close> truncates towards zero (\<open>smod\<close>); indexing
  \<open>speedMultipliers\<close> out of range panics.
\<close>

definition processInput :: "keyboard \<Rightarrow> world \<Rightarrow> error + world" where
  "processInput kb w =
     (let currentShiftState = KeyLeftShift kb;
          w1 = (if currentShiftState = Press \<and> lastShiftState w = Release
                then w\<lparr>currentSpeedIndex :=
                          (currentSpeedIndex w + 1) smod int (length speedMultipliers)\<rparr>
                else w);
          w2 = w1\<lparr>lastShiftState := currentShiftState\<rparr>
      in if currentSpeedIndex w2 < 0 \<or> int (length speedMultipliers) \<le> currentSpeedIndex w2
         then Inl PanicIndexOutOfRange
         else
           let speed = baseSpeed * (speedMultipliers ! nat (currentSpeedIndex w2)) * deltaTime w2;
               right = vNormalize (vCross (cameraFront w2) (cameraUp w2));
               w3 = (if KeyW kb = Press
                     then w2\<lparr>cameraPos := vAdd (cameraPos w2) (vMul (cameraFront w2) speed)\<rparr>
                     else w2);
               w4 = (if KeyS kb = Press
                     then w3\<lparr>cameraPos := vSub (cameraPos w3) (vMul (cameraFront w3) speed)\<rparr>
                     else w3);
               w5 = (if KeyA kb = Press
                     then w4\<lparr>cameraPos := vSub (cameraPos w4) (vMul right speed)\<rparr>
                     else w4);
               w6 = (if KeyD kb = Press
                     then w5\<lparr>cameraPos := vAdd (cameraPos w5) (vMul right speed)\<rparr>
                     else w5)
           in Inr w6)"

text \<open>\<open>processInput\<close> once per frame, with the keyboard as each frame finds it.\<close>

fun processFrames :: "keyboard list \<Rightarrow> world \<Rightarrow> error + world" where
  "processFrames [] w = Inr w"
| "processFrames (kb # rest) w =
     (case processInput kb w of Inl e \<Rightarrow> Inl e | Inr w1 \<Rightarrow> processFrames rest w1)"

text \<open>
  The number of released-to-pressed transitions of a key over consecutive frames, given
  its state in the frame before the first.
\<close>

fun pressEdges :: "Action \<Rightarrow> Action list \<Rightarrow> nat" where
  "pressEdges prev [] = 0"
| "pressEdges prev (cur # rest) =
     (if cur = Press \<and> prev = Release then 1 else 0) + pressEdges cur rest"

section \<open>Frame pacing\<close>

text \<open>
  \<open>time.Duration\<close> is an \<open>int64\<close> count of nanoseconds. Converting a \<open>float64\<close> to it
  discards the fraction; out of range the amd64 conversion yields the least \<open>int64\<close>.
  Arithmetic on it wraps. \<open>time.Sleep\<close> returns at once for a duration that is zero or
  negative, so the wait it imposes is the duration clamped at zero.
\<close>

definition wrap64 :: "int \<Rightarrow> int" where
  "wrap64 i = (i + 2 ^ 63) mod 2 ^ 64 - 2 ^ 63"

definition Second :: int where
  "Second = 1000000000"

definition Duration :: "float64 \<Rightarrow> int" where
  "Duration x =
     (let t = (if 0 \<le> x then \<lfloor>x\<rfloor> else \<lceil>x\<rceil>)
      in if - (2 ^ 63) \<le> t \<and> t < 2 ^ 63 then t else - (2 ^ 63))"

text \<open>The argument of the \<open>time.Sleep\<close> call that ends the loop body.\<close>

definition framePacing :: "world \<Rightarrow> int" where
  "framePacing w = wrap64 (Second sdiv 60 - wrap64 (Duration (deltaTime w) * Second))"

definition Sleep :: "int \<Rightarrow> int" where
  "Sleep d = (if d \<le> 0 then 0 else d)"

text \<open>The start of the loop body: the frame delta from \<open>glfw.GetTime\<close>.\<close>

definition frameClock :: "float64 \<Rightarrow> world \<Rightarrow> world" where
  "frameClock currentFrame w =
     w\<lparr>deltaTime := currentFrame - lastFrame w, lastFrame := currentFrame\<rparr>"

text \<open>
  What the frame-pacing sentence of the specification asks for, in nanoseconds: the
  budget of a sixtieth of a second less the frame delta, never below zero.
\<close>

definition pacingBudgetRemainder :: "float64 \<Rightarrow> real" where
  "pacingBudgetRemainder dt = max 0 (1000000000 / 60 - dt * 1000000000)"

section \<open>Reading a geometry file\<close>

subsection \<open>Library functions on strings\<close>

text \<open>
  A Go string is a sequence of bytes; a \<open>char\<close> is one byte. \<open>strings.Fields\<close> splits
  around runs of white space as \<open>unicode.IsSpace\<close> defines it on the UTF-8 decoding of
  the string. \<open>spaceWidth\<close> is the length in bytes of the white-space rune a string
  starts with, 0 when it starts with none: the six ASCII characters, U+0085, U+00A0,
  U+1680, U+2000 to U+200A, U+2028, U+2029, U+202F, U+205F and U+3000. No byte of such an
  encoding after the first is the first byte of another, and the first bytes are not
  continuation bytes, so the decoder meets each encoding at its first byte.
\<close>

definition asciiSpace :: "char \<Rightarrow> bool" where
  "asciiSpace c \<longleftrightarrow>
     c = CHR 0x09 \<or> c = CHR 0x0A \<or> c = CHR 0x0B \<or> c = CHR 0x0C \<or> c = CHR 0x0D \<or> c = CHR 0x20"

fun spaceWidth :: "string \<Rightarrow> nat" where
  "spaceWidth [] = 0"
| "spaceWidth (c # cs) =
     (if asciiSpace c then 1
      else if c = CHR 0xC2 then
        (case cs of d # _ \<Rightarrow> if d = CHR 0x85 \<or> d = CHR 0xA0 then 2 else 0 | [] \<Rightarrow> 0)
      else if c = CHR 0xE1 then
        (case cs of d # e # _ \<Rightarrow> if d = CHR 0x9A \<and> e = CHR 0x80 then 3 else 0 | _ \<Rightarrow> 0)
      else if c = CHR 0xE2 then
        (case cs of
           d # e # _ \<Rightarrow>
             if d = CHR 0x80 \<and> ((0x80 :: nat) \<le> of_char e \<and> of_char e \<le> (0x8A :: nat)
                                \<or> e = CHR 0xA8 \<or> e = CHR 0xA9 \<or> e = CHR 0xAF) then 3
             else if d = CHR 0x81 \<and> e = CHR 0x9F then 3
             else 0
         | _ \<Rightarrow> 0)
      else if c = CHR 0xE3 then
        (case cs of d # e # _ \<Rightarrow> if d = CHR 0x80 \<and> e = CHR 0x80 then 3 else 0 | _ \<Rightarrow> 0)
      else 0)"

text \<open>
  The scan of \<open>strings.Fields\<close>: \<open>skip\<close> counts the bytes still to pass of a white-space
  rune already met, \<open>cur\<close> is the field read so far.
\<close>

fun fieldsFrom :: "nat \<Rightarrow> string \<Rightarrow> string \<Rightarrow> string list" where
  "fieldsFrom skip cur [] = (if cur = [] then [] else [cur])"
| "fieldsFrom skip cur (c # cs) =
     (if 0 < skip then fieldsFrom (skip - 1) cur cs
      else if 0 < spaceWidth (c # cs)
      then (if cur = [] then [] else [cur]) @ fieldsFrom (spaceWidth (c # cs) - 1) [] cs
      else fieldsFrom 0 (cur @ [c]) cs)"

definition Fields :: "string \<Rightarrow> string list" where
  "Fields s = fieldsFrom 0 [] s"

text \<open>\<open>strings.Split\<close> for a separator of one byte: one more piece than separators.\<close>

fun splitFrom :: "char \<Rightarrow> string \<Rightarrow> string \<Rightarrow> string list" where
  "splitFrom sep cur [] = [cur]"
| "splitFrom sep cur (c # cs) =
     (if c = sep then cur # splitFrom sep [] cs else splitFrom sep (cur @ [c]) cs)"

definition Split :: "string \<Rightarrow> char \<Rightarrow> string list" where
  "Split s sep = splitFrom sep [] s"

fun Join :: "string list \<Rightarrow> string \<Rightarrow> string" where
  "Join [] sep = []"
| "Join [a] sep = a"
| "Join (a # b # rest) sep = a @ sep @ Join (b # rest) sep"

subsection \<open>\<open>strconv.Atoi\<close>\<close>

text \<open>
  \<open>strconv.Atoi\<close> on a platform with 64-bit \<open>int\<close>, as the Go library implements it: a
  fast path for strings of fewer than 19 bytes, \<open>ParseInt(s, 10, 0)\<close> otherwise. Both
  the value and the error are returned. A syntax error comes with the value 0; a range
  error comes with the nearest representable value. \<open>ParseUint\<close> reports a range error
  as soon as the digits read so far overflow, before it looks at the bytes that follow.
\<close>

datatype numError = ErrSyntax | ErrRange

definition isDigit :: "char \<Rightarrow> bool" where
  "isDigit c \<longleftrightarrow> (48 :: nat) \<le> of_char c \<and> of_char c \<le> (57 :: nat)"

definition digitVal :: "char \<Rightarrow> nat" where
  "digitVal c = of_char c - 48"

definition maxUint64 :: nat where
  "maxUint64 = 2 ^ 64 - 1"

fun parseUintLoop :: "nat \<Rightarrow> string \<Rightarrow> nat \<times> numError option" where
  "parseUintLoop n [] = (n, None)"
| "parseUintLoop n (c # cs) =
     (if \<not> isDigit c then (0, Some ErrSyntax)
      else if maxUint64 div 10 + 1 \<le> n then (maxUint64, Some ErrRange)
      else if maxUint64 < n * 10 + digitVal c then (maxUint64, Some ErrRange)
      else parseUintLoop (n * 10 + digitVal c) cs)"

definition ParseUint :: "string \<Rightarrow> nat \<times> numError option" where
  "ParseUint s = (if s = [] then (0, Some ErrSyntax) else parseUintLoop 0 s)"

definition ParseInt :: "string \<Rightarrow> int \<times> numError option" where
  "ParseInt s =
     (case s of
        [] \<Rightarrow> (0, Some ErrSyntax)
      | c # cs \<Rightarrow>
          let neg = (c = CHR ''-'');
              body = (if c = CHR ''+'' \<or> c = CHR ''-'' then cs else s);
              un = fst (ParseUint body);
              err = snd (ParseUint body)
          in if err = Some ErrSyntax then (0, Some ErrSyntax)
             else if \<not> neg \<and> 2 ^ 63 \<le> un then (2 ^ 63 - 1, Some ErrRange)
             else if neg \<and> 2 ^ 63 < un then (- (2 ^ 63), Some ErrRange)
             else (if neg then - int un else int un, None))"

fun atoiDigits :: "int \<Rightarrow> string \<Rightarrow> int option" where
  "atoiDigits n [] = Some n"
| "atoiDigits n (ch # rest) =
     (if \<not> isDigit ch then None else atoiDigits (n * 10 + int (digitVal ch)) rest)"

definition Atoi :: "string \<Rightarrow> int \<times> numError option" where
  "Atoi s =
     (case s of
        [] \<Rightarrow> ParseInt s
      | c # cs \<Rightarrow>
          if length s < 19 then
            (let s1 = (if c = CHR ''-'' \<or> c = CHR ''+'' then cs else s)
             in if s1 = [] then (0, Some ErrSyntax)
                else case atoiDigits 0 s1 of
                       None \<Rightarrow> (0, Some ErrSyntax)
                     | Some n \<Rightarrow> (if c = CHR ''-'' then - n else n, None))
          else ParseInt s)"

subsection \<open>\<open>loadOBJFile\<close>\<close>

text \<open>
  What the program takes from outside and the model leaves open: \<open>ParseFloat32 s\<close> is
  \<open>strconv.ParseFloat(s, 32)\<close> converted to \<open>float32\<close>, with the error dropped as the
  program drops it; \<open>fileBytes name\<close> is the content of the file of that name, or
  \<open>None\<close> when \<open>os.Open\<close> fails; \<open>filepathDir\<close> is \<open>filepath.Dir\<close>.
\<close>

record extern =
  ParseFloat32 :: "string \<Rightarrow> float32"
  fileBytes :: "string \<Rightarrow> string option"
  filepathDir :: "string \<Rightarrow> string"

text \<open>
  \<open>bufio.Scanner\<close> with its default split function and its default buffer. The tokens
  are the lines of the input: each ends at a newline, the last one at the end of the
  input if it is not empty, and \<open>Text\<close> is the line without the newline and without one
  carriage return before it. The buffer grows to \<open>MaxScanTokenSize\<close> bytes and no
  further: a line of that many bytes or more, not counting its newline, never fits;
  \<open>Scan\<close> then returns false with \<open>ErrTooLong\<close> and returns false ever after. The
  program does not look at \<open>scanner.Err()\<close>, so the lines from there on are not read.
  Reads of an opened file are taken to succeed.
\<close>

fun rawLinesFrom :: "string \<Rightarrow> string \<Rightarrow> string list" where
  "rawLinesFrom cur [] = (if cur = [] then [] else [cur])"
| "rawLinesFrom cur (c # cs) =
     (if c = CHR 0x0A then cur # rawLinesFrom [] cs else rawLinesFrom (cur @ [c]) cs)"

definition rawLines :: "string \<Rightarrow> string list" where
  "rawLines bytes = rawLinesFrom [] bytes"

definition dropCR :: "string \<Rightarrow> string" where
  "dropCR line = (if line \<noteq> [] \<and> last line = CHR 0x0D then butlast line else line)"

definition MaxScanTokenSize :: nat where
  "MaxScanTokenSize = 64 * 1024"

definition ScanLines :: "string \<Rightarrow> string list" where
  "ScanLines bytes =
     map dropCR (takeWhile (\<lambda>line. length line < MaxScanTokenSize) (rawLines bytes))"

text \<open>
  \<open>os.Open\<close> and the scanner on the opened file: the lines that the loop of
  \<open>loadOBJFile\<close> is given, or \<open>None\<close> when the file cannot be opened.
\<close>

definition osOpen :: "extern \<Rightarrow> string \<Rightarrow> string list option" where
  "osOpen E filename =
     (case fileBytes E filename of None \<Rightarrow> None | Some bytes \<Rightarrow> Some (ScanLines bytes))"

text \<open>
  One entry of a face line: the part before the first \<open>/\<close> through \<open>Atoi\<close>, error
  dropped, less one in \<open>int\<close>, converted to \<open>uint32\<close>.
\<close>

definition faceIndex :: "string \<Rightarrow> uint32" where
  "faceIndex field =
     (let vertexData = Split field (CHR ''/'');
          idx = fst (Atoi (hd vertexData))
      in word_of_int (wrap64 (idx - 1)))"

text \<open>The body of the scanning loop; the state is \<open>tempVertices\<close> and \<open>indices\<close>.\<close>

definition scanLine ::
  "extern \<Rightarrow> vec3 list \<times> uint32 list \<Rightarrow> string \<Rightarrow> vec3 list \<times> uint32 list" where
  "scanLine E acc line =
     (let fields = Fields line
      in if length fields = 0 then acc
         else if hd fields = ''v'' then
           (if length fields < 4 then acc
            else (fst acc @ [(ParseFloat32 E (fields ! 1), ParseFloat32 E (fields ! 2),
                              ParseFloat32 E (fields ! 3))], snd acc))
         else if hd fields = ''f'' then
           (if length fields < 4 then acc
            else (fst acc, snd acc @ map faceIndex (tl fields)))
         else acc)"

definition flatten :: "vec3 list \<Rightarrow> float32 list" where
  "flatten tempVertices = concat (map (\<lambda>(v0, v1, v2). [v0, v1, v2]) tempVertices)"

definition loadOBJFile ::
  "extern \<Rightarrow> string \<Rightarrow> world \<Rightarrow> error + ((float32 list \<times> uint32 list) \<times> world)" where
  "loadOBJFile E filename w =
     (case osOpen E filename of
        None \<Rightarrow> Inl (FatalOpen filename)
      | Some lines \<Rightarrow>
          let acc = foldl (scanLine E) ([], []) lines;
              vertices = flatten (fst acc);
              indices = snd acc
          in Inr ((vertices, indices),
                  w\<lparr>logged := logged w @
                       [LogLoaded (int (length vertices) sdiv 3) (int (length indices))]\<rparr>))"

text \<open>
  The records of the geometry format in the words of the specification: a position
  record is a line whose first field is \<open>v\<close> with at least three fields after it, a
  triangular face record a line whose first field is \<open>f\<close> with exactly three; a line
  contributes nothing when it is blank, starts with another token, or has fewer than
  three fields after the token.
\<close>

definition positionRecord :: "string \<Rightarrow> bool" where
  "positionRecord line =
     (case Fields line of [] \<Rightarrow> False | t # rest \<Rightarrow> t = ''v'' \<and> 3 \<le> length rest)"

definition triangleRecord :: "string \<Rightarrow> bool" where
  "triangleRecord line =
     (case Fields line of [] \<Rightarrow> False | t # rest \<Rightarrow> t = ''f'' \<and> length rest = 3)"

definition contributesNothing :: "string \<Rightarrow> bool" where
  "contributesNothing line =
     (case Fields line of [] \<Rightarrow> True
      | t # rest \<Rightarrow> (t \<noteq> ''v'' \<and> t \<noteq> ''f'') \<or> length rest < 3)"

definition positionFloats :: "extern \<Rightarrow> string \<Rightarrow> float32 list" where
  "positionFloats E line = map (ParseFloat32 E) (take 3 (tl (Fields line)))"

definition faceReferences :: "string \<Rightarrow> string list" where
  "faceReferences line = map (\<lambda>field. hd (Split field (CHR ''/''))) (tl (Fields line))"

text \<open>
  The lines of a file, whatever their length: what the scanner would yield were its
  buffer unbounded.
\<close>

definition fileLines :: "string \<Rightarrow> string list" where
  "fileLines bytes = map dropCR (rawLines bytes)"

text \<open>
  The integer that a reference denotes, by place value and apart from any parser:
  \<open>lsdValue\<close> takes the digits from the least significant; an integer numeral is a
  string of one or more decimal digits after at most one sign.
\<close>

fun lsdValue :: "string \<Rightarrow> nat" where
  "lsdValue [] = 0"
| "lsdValue (c # cs) = digitVal c + 10 * lsdValue cs"

definition decimalValue :: "string \<Rightarrow> nat" where
  "decimalValue s = lsdValue (rev s)"

definition integerValue :: "string \<Rightarrow> int option" where
  "integerValue s =
     (case s of
        [] \<Rightarrow> None
      | c # cs \<Rightarrow>
          let body = (if c = CHR ''+'' \<or> c = CHR ''-'' then cs else s)
          in if body = [] \<or> \<not> list_all isDigit body then None
             else Some (if c = CHR ''-'' then - int (decimalValue body)
                        else int (decimalValue body)))"

section \<open>Building and replacing the scene\<close>

subsection \<open>\<open>calculateBounds\<close>\<close>

text \<open>
  The loop reads three floats at a time; reading past the end of the slice panics. The
  function is only called on a buffer that is not empty.
\<close>

fun boundsLoop :: "float32 list \<Rightarrow> Bounds \<Rightarrow> error + Bounds" where
  "boundsLoop [] b = Inr b"
| "boundsLoop (x # y # z # rest) b =
     boundsLoop rest
       (b\<lparr> minX := min (minX b) x, maxX := max (maxX b) x,
           minY := min (minY b) y, maxY := max (maxY b) y,
           minZ := min (minZ b) z, maxZ := max (maxZ b) z \<rparr>)"
| "boundsLoop _ b = Inl PanicIndexOutOfRange"

definition calculateBounds :: "float32 list \<Rightarrow> world \<Rightarrow> error + (Bounds \<times> world)" where
  "calculateBounds vs w =
     (case vs of
        x # y # z # _ \<Rightarrow>
          (case boundsLoop vs \<lparr> minX = x, minY = y, minZ = z, maxX = x, maxY = y, maxZ = z \<rparr> of
             Inl e \<Rightarrow> Inl e
           | Inr b \<Rightarrow> Inr (b, w\<lparr>logged := logged w @ [LogMeshBounds b]\<rparr>))
      | _ \<Rightarrow> Inl PanicIndexOutOfRange)"

subsection \<open>Object names of the render backend\<close>

text \<open>
  \<open>gl.GenVertexArrays(1, _)\<close> and \<open>gl.GenBuffers(1, _)\<close> return a name not in use; the
  model hands out the next of a counter. The \<open>Delete\<close> calls release a name.
\<close>

definition GenVertexArrays :: "world \<Rightarrow> uint32 \<times> world" where
  "GenVertexArrays w =
     (glNextName w, w\<lparr>glNextName := glNextName w + 1, glArrays := glArrays w @ [glNextName w]\<rparr>)"

definition GenBuffers :: "world \<Rightarrow> uint32 \<times> world" where
  "GenBuffers w =
     (glNextName w, w\<lparr>glNextName := glNextName w + 1, glBuffers := glBuffers w @ [glNextName w]\<rparr>)"

definition DeleteVertexArrays :: "uint32 \<Rightarrow> world \<Rightarrow> world" where
  "DeleteVertexArrays name w = w\<lparr>glArrays := removeAll name (glArrays w)\<rparr>"

definition DeleteBuffers :: "uint32 \<Rightarrow> world \<Rightarrow> world" where
  "DeleteBuffers name w = w\<lparr>glBuffers := removeAll name (glBuffers w)\<rparr>"

subsection \<open>Loading\<close>

text \<open>The zero value \<open>MeshData{}\<close>.\<close>

definition emptyMeshData :: MeshData where
  "emptyMeshData =
     \<lparr> vertices = [], indices = [],
       bounds = \<lparr> minX = 0, minY = 0, minZ = 0, maxX = 0, maxY = 0, maxZ = 0 \<rparr>,
       vao = 0, vbo = 0, ebo = 0 \<rparr>"

definition loadSingleMesh ::
  "extern \<Rightarrow> uint32 \<Rightarrow> string \<Rightarrow> world \<Rightarrow> error + (MeshData \<times> world)" where
  "loadSingleMesh E program filename w =
     (case loadOBJFile E filename w of
        Inl e \<Rightarrow> Inl e
      | Inr ((vs, is), w1) \<Rightarrow>
          if length vs = 0 \<or> length is = 0
          then Inr (emptyMeshData, w1\<lparr>logged := logged w1 @ [LogWarnNoMeshData filename]\<rparr>)
          else
            (case calculateBounds vs w1 of
               Inl e \<Rightarrow> Inl e
             | Inr (b, w2) \<Rightarrow>
                 let (vao1, w3) = GenVertexArrays w2;
                     (vbo1, w4) = GenBuffers w3;
                     (ebo1, w5) = GenBuffers w4
                 in Inr (\<lparr> vertices = vs, indices = is, bounds = b,
                            vao = vao1, vbo = vbo1, ebo = ebo1 \<rparr>, w5)))"

definition initializeCamera :: "Bounds \<Rightarrow> world \<Rightarrow> world" where
  "initializeCamera b w =
     (let centerX = (minX b + maxX b) / 2;
          centerY = (minY b + maxY b) / 2;
          centerZ = (minZ b + maxZ b) / 2;
          sizeX = maxX b - minX b;
          sizeY = maxY b - minY b;
          sizeZ = maxZ b - minZ b;
          maxSize = max sizeX (max sizeY sizeZ);
          viewDistance = maxSize * (8 / 10)
      in w\<lparr> cameraPos := (centerX, centerY + maxSize * (3 / 10), centerZ + viewDistance),
            yaw := - 90, pitch := - 20,
            cameraFront := vNormalize (direction (- 90) (- 20)) \<rparr>)"

text \<open>The loop of \<open>loadAllMeshes\<close> over \<open>filenames[1:]\<close>.\<close>

fun loadRemaining ::
  "extern \<Rightarrow> uint32 \<Rightarrow> string list \<Rightarrow> Scene \<Rightarrow> world \<Rightarrow> error + (Scene \<times> world)" where
  "loadRemaining E program [] newScene w = Inr (newScene, w)"
| "loadRemaining E program (filename # rest) newScene w =
     (case loadSingleMesh E program filename w of
        Inl e \<Rightarrow> Inl e
      | Inr (mesh, w1) \<Rightarrow>
          loadRemaining E program rest
            \<lparr> meshes = meshes newScene @ [mesh],
              scene_bounds = combineBounds (scene_bounds newScene) (bounds mesh) \<rparr> w1)"

text \<open>\<open>filenames[0]\<close> panics on an empty list.\<close>

definition loadAllMeshes ::
  "extern \<Rightarrow> uint32 \<Rightarrow> string list \<Rightarrow> world \<Rightarrow> error + (Scene \<times> world)" where
  "loadAllMeshes E program filenames w =
     (case filenames of
        [] \<Rightarrow> Inl PanicIndexOutOfRange
      | first # rest \<Rightarrow>
          (case loadSingleMesh E program first w of
             Inl e \<Rightarrow> Inl e
           | Inr (firstMesh, w1) \<Rightarrow>
               (case loadRemaining E program rest
                       \<lparr> meshes = [firstMesh], scene_bounds = bounds firstMesh \<rparr> w1 of
                  Inl e \<Rightarrow> Inl e
                | Inr (newScene, w2) \<Rightarrow>
                    Inr (newScene, initializeCamera (scene_bounds newScene) w2))))"

text \<open>\<open>cleanupScene(&scene)\<close>, on the global scene.\<close>

definition cleanupScene :: "world \<Rightarrow> world" where
  "cleanupScene w =
     (let w1 = foldl (\<lambda>u m. DeleteBuffers (ebo m) (DeleteBuffers (vbo m)
                                (DeleteVertexArrays (vao m) u))) w (meshes (scene w))
      in w1\<lparr>scene := (scene w1)\<lparr>meshes := []\<rparr>\<rparr>)"

subsection \<open>Hot reload\<close>

text \<open>
  What the file-selection dialog comes back with is the user's doing: it is an input of
  the model. \<open>dialogsShown\<close> counts the calls of \<open>zenity.SelectFileMultiple\<close>.
\<close>

datatype dialogOutcome = Canceled | Failed | Selected "string list"

datatype selectError = NoFilesSelected | DialogError

definition selectOBJFiles ::
  "extern \<Rightarrow> string \<Rightarrow> dialogOutcome \<Rightarrow> world \<Rightarrow> (string list \<times> selectError option) \<times> world" where
  "selectOBJFiles E startDir outcome w =
     (let w1 = w\<lparr>dialogsShown := dialogsShown w + 1\<rparr>
      in case outcome of
           Canceled \<Rightarrow> (([], Some NoFilesSelected), w1)
         | Failed \<Rightarrow> (([], Some DialogError), w1)
         | Selected filenames \<Rightarrow>
             ((filenames, None),
              (case filenames of
                 [] \<Rightarrow> w1
               | first # _ \<Rightarrow> w1\<lparr>lastDirectory := filepathDir E first\<rparr>)))"

definition checkFileReload ::
  "extern \<Rightarrow> keyboard \<Rightarrow> dialogOutcome \<Rightarrow> world \<Rightarrow> (string list \<times> selectError option) \<times> world" where
  "checkFileReload E kb outcome w =
     (if KeyF1 kb = Press then selectOBJFiles E (lastDirectory w) outcome w
      else (([], None), w))"

text \<open>The reload check in the loop body of \<open>main\<close>.\<close>

definition reloadStep ::
  "extern \<Rightarrow> uint32 \<Rightarrow> keyboard \<Rightarrow> dialogOutcome \<Rightarrow> world \<Rightarrow> error + world" where
  "reloadStep E program kb outcome w =
     (case checkFileReload E kb outcome w of
        ((newFiles, err), w1) \<Rightarrow>
          if err = None \<and> 0 < length newFiles then
            (case loadAllMeshes E program newFiles (cleanupScene w1) of
               Inl e \<Rightarrow> Inl e
             | Inr (newScene, w2) \<Rightarrow>
                 Inr (w2\<lparr> scene := newScene,
                          windowTitle := ''NavMesh Viewer - '' @ Join newFiles '', '' \<rparr>))
          else Inr w1)"

text \<open>
  The reload check over consecutive frames, each with the keyboard as the frame finds it
  and with what a dialog opened in that frame would come back with.
\<close>

fun reloadFrames ::
  "extern \<Rightarrow> uint32 \<Rightarrow> (keyboard \<times> dialogOutcome) list \<Rightarrow> world \<Rightarrow> error + world" where
  "reloadFrames E program [] w = Inr w"
| "reloadFrames E program ((kb, outcome) # rest) w =
     (case reloadStep E program kb outcome w of
        Inl e \<Rightarrow> Inl e
      | Inr w1 \<Rightarrow> reloadFrames E program rest w1)"

text \<open>The number of frames of a list in which a key is down.\<close>

definition framesPressed :: "Action list \<Rightarrow> nat" where
  "framesPressed states = length (filter (\<lambda>a. a = Press) states)"

subsection \<open>What a mesh record takes from its file\<close>

text \<open>The vertex buffer, the index buffer and the bounds of a mesh record.\<close>

definition meshGeometry :: "MeshData \<Rightarrow> float32 list \<times> uint32 list \<times> Bounds" where
  "meshGeometry m = (vertices m, indices m, bounds m)"

text \<open>A file that opens and parses to no vertices or to no indices.\<close>

definition degenerateFile :: "extern \<Rightarrow> string \<Rightarrow> bool" where
  "degenerateFile E filename =
     (case osOpen E filename of
        None \<Rightarrow> False
      | Some lines \<Rightarrow>
          flatten (fst (foldl (scanLine E) ([], []) lines)) = []
          \<or> snd (foldl (scanLine E) ([], []) lines) = [])"

text \<open>
  A mesh record as \<open>loadSingleMesh\<close> may return it for a file, in some state. The
  predicate serves the proofs about the loading loop.
\<close>

definition loadedFrom :: "extern \<Rightarrow> uint32 \<Rightarrow> string \<Rightarrow> MeshData \<Rightarrow> bool" where
  "loadedFrom E program filename m =
     (\<exists>u u'. loadSingleMesh E program filename u = Inr (m, u'))"

section \<open>The program at start-up\<close>

text \<open>
  The package-level variables as their declarations initialise them (\<open>lastX\<close> and
  \<open>lastY\<close> are half of the window's 1280 by 720), and the collaborators before the
  window exists.
\<close>

definition initialWorld :: world where
  "initialWorld =
     \<lparr> cameraPos = (0, 0, 0), cameraFront = (0, 0, - 1), cameraUp = (0, 1, 0),
       yaw = - 90, pitch = 0, lastX = 640, lastY = 360, firstMouse = True,
       deltaTime = 0, lastFrame = 0, currentSpeedIndex = 0, lastShiftState = Release,
       lastDirectory = [],
       scene = \<lparr> meshes = [],
                 scene_bounds = \<lparr> minX = 0, minY = 0, minZ = 0, maxX = 0, maxY = 0, maxZ = 0 \<rparr> \<rparr>,
       glNextName = 1, glArrays = [], glBuffers = [], windowTitle = [], logged = [],
       dialogsShown = 0 \<rparr>"

text \<open>A keyboard on which at most the left shift key is down.\<close>

definition keysWithShift :: "Action \<Rightarrow> keyboard" where
  "keysWithShift a = \<lparr> KeyLeftShift = a, KeyW = Release, KeyS = Release, KeyA = Release,
     KeyD = Release, KeyF1 = Release \<rparr>"

section \<open>Example inputs\<close>

text \<open>
  The bytes of a file with the given lines, each ended by a newline. An instance of the
  outside world for the examples: the files are those listed, \<open>ParseFloat32\<close> reads
  integer numerals, \<open>filepathDir\<close> keeps what precedes the first \<open>/\<close>.
\<close>

definition unlines :: "string list \<Rightarrow> string" where
  "unlines ls = concat (map (\<lambda>l. l @ [CHR 0x0A]) ls)"

definition exampleExtern :: "(string \<times> string list) list \<Rightarrow> extern" where
  "exampleExtern files =
     \<lparr> ParseFloat32 = (\<lambda>s. real_of_int (fst (Atoi s))),
       fileBytes = map_of (map (\<lambda>(name, ls). (name, unlines ls)) files),
       filepathDir = (\<lambda>name. hd (Split name (CHR ''/''))) \<rparr>"

text \<open>
  A geometry file: three positions (one with a fourth field), two triangular faces (one
  with \<open>/\<close>-separated references), a comment, a blank line, a line of another kind and two
  lines with too few fields.
\<close>

definition sampleOBJ :: "string list" where
  "sampleOBJ = [''# a triangle, twice'', ''v 0 0 0'', ''v 1 0 0 9'', [], ''  v 0 1 0'',
     ''vt 1 2 3'', ''f 1 2 3'', ''f 3/1 2/1/1 1//2'', ''v 1 2'', ''f 1 2'']"

text \<open>A second geometry file, and one that has a position but no face.\<close>

definition secondOBJ :: "string list" where
  "secondOBJ = [''v 2 4 -2'', ''v 0 0 0'', ''v 1 1 1'', ''f 1 2 3'']"

definition facelessOBJ :: "string list" where
  "facelessOBJ = [''# no faces'', ''v 1 2 3'']"

definition exampleFiles :: extern where
  "exampleFiles = exampleExtern [(''a.obj'', sampleOBJ), (''none.obj'', facelessOBJ),
     (''dir/b.obj'', secondOBJ)]"

text \<open>
  A geometry file whose references have several digits, a sign, leading zeros and more
  than eighteen bytes, and whose first line ends with a carriage return; and one with a
  comment line of 70000 bytes between two halves.
\<close>

definition referencesOBJ :: "string list" where
  "referencesOBJ = [''# references'' @ [CHR 0x0D], ''v 10 -20 +30'',
     ''f 12 345/6 0000000000000000000100'', ''f 4294967297/1 -1 9223372036854775807'']"

definition longLineOBJ :: "string list" where
  "longLineOBJ = [''v 0 0 0'', ''f 1 1 1'', replicate 70000 (CHR ''#''), ''v 1 1 1'', ''f 1 2 2'']"

text \<open>A keyboard on which at most F1 is down.\<close>

definition keysWithF1 :: "Action \<Rightarrow> keyboard" where
  "keysWithF1 a = \<lparr> KeyLeftShift = Release, KeyW = Release, KeyS = Release, KeyA = Release,
     KeyD = Release, KeyF1 = a \<rparr>"

text \<open>A state in which a scene of one mesh is on display.\<close>

definition loadedWorld :: world where
  "loadedWorld =
     initialWorld\<lparr> scene := \<lparr> meshes = [\<lparr> vertices = [7, 7, 7, 8, 8, 8, 9, 9, 9],
                                             indices = [0, 1, 2],
                                             bounds = \<lparr> minX = 7, minY = 7, minZ = 7,
                                                        maxX = 9, maxY = 9, maxZ = 9 \<rparr>,
                                             vao = 1, vbo = 2, ebo = 3 \<rparr>],
                                  scene_bounds = \<lparr> minX = 7, minY = 7, minZ = 7,
                                                   maxX = 9, maxY = 9, maxZ = 9 \<rparr> \<rparr>,
                    glNextName := 4, glArrays := [1], glBuffers := [2, 3],
                    windowTitle := ''NavMesh Viewer - old.obj'', firstMouse := False \<rparr>"

section \<open>Properties\<close>

subsection \<open>Bounds\<close>

text \<open>
  C4. \<open>combineBounds\<close> takes the minimum of the two min corners and the maximum of the two
  max corners, coordinate by coordinate; it is commutative and associative.
\<close>

theorem combineBounds_comm_assoc:
  "combineBounds A B = combineBounds B A
   \<and> combineBounds (combineBounds A B) C = combineBounds A (combineBounds B C)
   \<and> minX (combineBounds A B) = min (minX A) (minX B)
   \<and> minY (combineBounds A B) = min (minY A) (minY B)
   \<and> minZ (combineBounds A B) = min (minZ A) (minZ B)
   \<and> maxX (combineBounds A B) = max (maxX A) (maxX B)
   \<and> maxY (combineBounds A B) = max (maxY A) (maxY B)
   \<and> maxZ (combineBounds A B) = max (maxZ A) (maxZ B)"
  by (simp add: combineBounds_def min.commute max.commute min.left_commute max.left_commute)

subsection \<open>Mouse look\<close>

lemma mouseCallback_pitch_range:
  "- 89 \<le> pitch w \<Longrightarrow> pitch w \<le> 89 \<Longrightarrow>
   - 89 \<le> pitch (mouseCallback x y w) \<and> pitch (mouseCallback x y w) \<le> 89"
  by (simp add: mouseCallback_def Let_def)

lemma mouseSamples_pitch_range:
  "- 89 \<le> pitch w \<Longrightarrow> pitch w \<le> 89 \<Longrightarrow>
   - 89 \<le> pitch (mouseSamples ss w) \<and> pitch (mouseSamples ss w) \<le> 89"
proof (induction ss arbitrary: w)
  case Nil
  then show ?case by simp
next
  case (Cons s ss)
  obtain x y where s: "s = (x, y)" by (cases s)
  from Cons.prems mouseCallback_pitch_range [of w x y]
  have "- 89 \<le> pitch (mouseCallback x y w)" "pitch (mouseCallback x y w) \<le> 89" by simp_all
  then show ?case using Cons.IH [of "mouseCallback x y w"] by (simp add: s)
qed

text \<open>
  C3. Starting from a pitch within [-89, 89], the pitch is within [-89, 89] after every
  callback of any sequence of cursor samples. A sample whose vertical delta would take the
  pitch above 89 leaves it at exactly 89, one that would take it below -89 at exactly -89.
\<close>

theorem pitch_clamped:
  assumes "- 89 \<le> pitch w" and "pitch w \<le> 89"
  shows "(\<forall>n \<le> length ss. - 89 \<le> pitch (mouseSamples (take n ss) w)
                         \<and> pitch (mouseSamples (take n ss) w) \<le> 89)
     \<and> (\<not> firstMouse w \<and> 89 < pitch w + (lastY w - ypos) * mouseSensitivity
          \<longrightarrow> pitch (mouseCallback xpos ypos w) = 89)
     \<and> (\<not> firstMouse w \<and> pitch w + (lastY w - ypos) * mouseSensitivity < - 89
          \<longrightarrow> pitch (mouseCallback xpos ypos w) = - 89)"
  using assms mouseSamples_pitch_range [OF assms]
  by (simp add: mouseCallback_def Let_def)

theorem pitch_clamped_witness:
  "- 89 \<le> pitch (initialWorld\<lparr>firstMouse := False, lastY := 1500\<rparr>)
   \<and> pitch (initialWorld\<lparr>firstMouse := False, lastY := 1500\<rparr>) \<le> 89
   \<and> - 89 \<le> pitch (mouseSamples [(0, 0), (0, - 2000), (5, 4000)]
                        (initialWorld\<lparr>firstMouse := False, lastY := 1500\<rparr>))
   \<and> pitch (mouseSamples [(0, 0), (0, - 2000), (5, 4000)]
                        (initialWorld\<lparr>firstMouse := False, lastY := 1500\<rparr>)) \<le> 89
   \<and> pitch (mouseCallback 0 0 (initialWorld\<lparr>firstMouse := False, lastY := 1500\<rparr>)) = 89
   \<and> pitch (mouseCallback 0 3000 (initialWorld\<lparr>firstMouse := False, lastY := 1500\<rparr>)) = - 89"
proof -
  let ?w = "initialWorld\<lparr>firstMouse := False, lastY := 1500\<rparr>"
  let ?ss = "[(0, 0), (0, - 2000), (5, 4000)] :: (float64 \<times> float64) list"
  have h: "- 89 \<le> pitch ?w" "pitch ?w \<le> 89"
    by (simp_all add: initialWorld_def)
  have up: "\<not> firstMouse ?w \<and> 89 < pitch ?w + (lastY ?w - 0) * mouseSensitivity"
    by (simp add: initialWorld_def mouseSensitivity_def)
  have down: "\<not> firstMouse ?w \<and> pitch ?w + (lastY ?w - 3000) * mouseSensitivity < - 89"
    by (simp add: initialWorld_def mouseSensitivity_def)
  note t = pitch_clamped [OF h, of ?ss 0 0]
  have "- 89 \<le> pitch (mouseSamples (take 3 ?ss) ?w) \<and> pitch (mouseSamples (take 3 ?ss) ?w) \<le> 89"
    using t [THEN conjunct1, rule_format, of 3] by simp
  then have a: "- 89 \<le> pitch (mouseSamples ?ss ?w)" "pitch (mouseSamples ?ss ?w) \<le> 89"
    by simp_all
  have b: "pitch (mouseCallback 0 0 ?w) = 89"
    using t [THEN conjunct2, THEN conjunct1, THEN mp, OF up] .
  have c: "pitch (mouseCallback 0 3000 ?w) = - 89"
    using pitch_clamped [OF h, of "[]" 3000 0, THEN conjunct2, THEN conjunct2, THEN mp, OF down] .
  show ?thesis
    by (intro conjI) (rule h a b c)+
qed

text \<open>
  C9. The first cursor sample, delivered while \<open>firstMouse\<close> is set, only stores the
  position and clears the flag: yaw, pitch and the front vector stay as they were. The
  second sample rotates by its delta from the first.
\<close>

theorem first_sample_no_rotation:
  assumes "firstMouse w"
  shows "mouseCallback x1 y1 w = w\<lparr>lastX := x1, lastY := y1, firstMouse := False\<rparr>
     \<and> yaw (mouseCallback x1 y1 w) = yaw w
     \<and> pitch (mouseCallback x1 y1 w) = pitch w
     \<and> cameraFront (mouseCallback x1 y1 w) = cameraFront w
     \<and> yaw (mouseCallback x2 y2 (mouseCallback x1 y1 w)) = yaw w + (x2 - x1) * mouseSensitivity
     \<and> pitch (mouseCallback x2 y2 (mouseCallback x1 y1 w))
         = max (- 89) (min 89 (pitch w + (y1 - y2) * mouseSensitivity))"
  using assms by (simp add: mouseCallback_def Let_def min_def max_def)

theorem first_sample_no_rotation_witness:
  "firstMouse initialWorld
   \<and> yaw (mouseCallback 1000 900 initialWorld) = - 90
   \<and> pitch (mouseCallback 1000 900 initialWorld) = 0
   \<and> cameraFront (mouseCallback 1000 900 initialWorld) = (0, 0, - 1)
   \<and> yaw (mouseCallback 1010 880 (mouseCallback 1000 900 initialWorld)) = - 89
   \<and> pitch (mouseCallback 1010 880 (mouseCallback 1000 900 initialWorld)) = 2"
  using first_sample_no_rotation [of initialWorld 1000 900 1010 880]
  by (simp add: initialWorld_def mouseSensitivity_def mouseCallback_def Let_def)

subsection \<open>Speed multiplier\<close>

lemma processInput_index:
  assumes "0 \<le> currentSpeedIndex w" and "currentSpeedIndex w < 5"
  shows "\<exists>w1. processInput kb w = Inr w1
     \<and> currentSpeedIndex w1 =
         (if KeyLeftShift kb = Press \<and> lastShiftState w = Release
          then (currentSpeedIndex w + 1) mod 5 else currentSpeedIndex w)
     \<and> lastShiftState w1 = KeyLeftShift kb"
proof -
  have m: "(currentSpeedIndex w + 1) smod 5 = (currentSpeedIndex w + 1) mod 5"
    using assms by (simp add: smod_int_alt_def sgn_if)
  have r: "\<not> (currentSpeedIndex w + 1) mod 5 < 0" "\<not> 5 \<le> (currentSpeedIndex w + 1) mod 5"
    by (simp_all add: not_less not_le)
  show ?thesis
    using assms r by (simp add: processInput_def Let_def speedMultipliers_def m)
qed

lemma processFrames_index:
  assumes "0 \<le> currentSpeedIndex w" and "currentSpeedIndex w < 5"
  shows "\<exists>w'. processFrames kbs w = Inr w'
     \<and> currentSpeedIndex w' =
         (currentSpeedIndex w + int (pressEdges (lastShiftState w) (map KeyLeftShift kbs))) mod 5
     \<and> lastShiftState w' = last (lastShiftState w # map KeyLeftShift kbs)"
  using assms
proof (induction kbs arbitrary: w)
  case Nil
  then show ?case by simp
next
  case (Cons kb kbs)
  from processInput_index [OF Cons.prems, of kb] obtain w1 where
    w1: "processInput kb w = Inr w1"
    and i1: "currentSpeedIndex w1 =
         (if KeyLeftShift kb = Press \<and> lastShiftState w = Release
          then (currentSpeedIndex w + 1) mod 5 else currentSpeedIndex w)"
    and s1: "lastShiftState w1 = KeyLeftShift kb"
    by blast
  have r1: "0 \<le> currentSpeedIndex w1" "currentSpeedIndex w1 < 5"
    using i1 Cons.prems by (simp_all split: if_splits)
  from Cons.IH [OF r1] obtain w' where
    w': "processFrames kbs w1 = Inr w'"
    and i': "currentSpeedIndex w' =
         (currentSpeedIndex w1 + int (pressEdges (lastShiftState w1) (map KeyLeftShift kbs))) mod 5"
    and s': "lastShiftState w' = last (lastShiftState w1 # map KeyLeftShift kbs)"
    by blast
  have "currentSpeedIndex w' =
      (currentSpeedIndex w + int (pressEdges (lastShiftState w) (map KeyLeftShift (kb # kbs)))) mod 5"
    using i' i1 s1 by (simp add: mod_simps algebra_simps)
  moreover have "lastShiftState w' = last (lastShiftState w # map KeyLeftShift (kb # kbs))"
    using s' s1 by simp
  ultimately show ?case using w1 w' by simp
qed

lemma pressEdges_hold:
  "\<forall>a \<in> set as. a = Press \<Longrightarrow> pressEdges Press as = 0"
  by (induction as) auto

lemma pressEdges_hold_from_release:
  "as \<noteq> [] \<Longrightarrow> \<forall>a \<in> set as. a = Press \<Longrightarrow> pressEdges Release as = 1"
  by (cases as) (auto simp: pressEdges_hold)

text \<open>
  C5. From a valid index, \<open>processInput\<close> over the frames of any sequence of shift-key
  states never panics and leaves the index at its start value plus the number of
  released-to-pressed transitions, modulo 5: one step per press-edge, none otherwise. The
  index stays a valid position of the five-element list. A hold over any number of frames,
  begun from the released state, advances it exactly once; a sequence without a
  press-edge leaves it where it was.
\<close>

theorem speed_index_cycles:
  assumes "0 \<le> currentSpeedIndex w" and "currentSpeedIndex w < 5"
  shows "\<exists>w'. processFrames kbs w = Inr w'
     \<and> currentSpeedIndex w' =
         (currentSpeedIndex w + int (pressEdges (lastShiftState w) (map KeyLeftShift kbs))) mod 5
     \<and> 0 \<le> currentSpeedIndex w' \<and> currentSpeedIndex w' < int (length speedMultipliers)
     \<and> (kbs \<noteq> [] \<and> (\<forall>kb \<in> set kbs. KeyLeftShift kb = Press) \<and> lastShiftState w = Release
          \<longrightarrow> currentSpeedIndex w' = (currentSpeedIndex w + 1) mod 5)
     \<and> (pressEdges (lastShiftState w) (map KeyLeftShift kbs) = 0
          \<longrightarrow> currentSpeedIndex w' = currentSpeedIndex w)"
proof -
  from processFrames_index [OF assms, of kbs] obtain w' where
    w': "processFrames kbs w = Inr w'"
    and i': "currentSpeedIndex w' =
         (currentSpeedIndex w + int (pressEdges (lastShiftState w) (map KeyLeftShift kbs))) mod 5"
    by blast
  have "kbs \<noteq> [] \<and> (\<forall>kb \<in> set kbs. KeyLeftShift kb = Press) \<and> lastShiftState w = Release
          \<longrightarrow> currentSpeedIndex w' = (currentSpeedIndex w + 1) mod 5"
    using i' pressEdges_hold_from_release [of "map KeyLeftShift kbs"] by auto
  moreover have "pressEdges (lastShiftState w) (map KeyLeftShift kbs) = 0
          \<longrightarrow> currentSpeedIndex w' = currentSpeedIndex w"
    using i' assms by simp
  moreover have "0 \<le> currentSpeedIndex w' \<and> currentSpeedIndex w' < int (length speedMultipliers)"
    using i' by (simp add: speedMultipliers_def)
  ultimately show ?thesis using w' i' by (intro exI [of _ w']) simp
qed

theorem speed_index_cycles_witness:
  "0 \<le> currentSpeedIndex initialWorld \<and> currentSpeedIndex initialWorld < 5
   \<and> (\<exists>w'. processFrames (concat (replicate 5 [keysWithShift Press, keysWithShift Press,
                                                 keysWithShift Release])) initialWorld = Inr w'
          \<and> currentSpeedIndex w' = 0)
   \<and> (\<exists>w'. processFrames [keysWithShift Press, keysWithShift Press, keysWithShift Press]
             initialWorld = Inr w'
          \<and> currentSpeedIndex w' = 1)"
proof -
  have h: "0 \<le> currentSpeedIndex initialWorld" "currentSpeedIndex initialWorld < 5"
    by (simp_all add: initialWorld_def)
  have e5: "pressEdges (lastShiftState initialWorld)
      (map KeyLeftShift (concat (replicate 5 [keysWithShift Press, keysWithShift Press,
                                                 keysWithShift Release]))) = 5"
    by (simp add: initialWorld_def keysWithShift_def numeral_eq_Suc)
  have e1: "pressEdges (lastShiftState initialWorld)
      (map KeyLeftShift [keysWithShift Press, keysWithShift Press, keysWithShift Press]) = 1"
    by (simp add: initialWorld_def keysWithShift_def)
  have i0: "currentSpeedIndex initialWorld = 0"
    by (simp add: initialWorld_def)
  from speed_index_cycles [OF h, of "concat (replicate 5 [keysWithShift Press,
          keysWithShift Press, keysWithShift Release])"]
  have a: "\<exists>w'. processFrames (concat (replicate 5 [keysWithShift Press, keysWithShift Press,
                                                 keysWithShift Release])) initialWorld = Inr w'
          \<and> currentSpeedIndex w' = 0"
    unfolding e5 i0 by auto
  from speed_index_cycles [OF h, of "[keysWithShift Press, keysWithShift Press,
          keysWithShift Press]"]
  have b: "\<exists>w'. processFrames [keysWithShift Press, keysWithShift Press, keysWithShift Press]
             initialWorld = Inr w' \<and> currentSpeedIndex w' = 1"
    unfolding e1 i0 by auto
  show ?thesis using h a b by blast
qed

subsection \<open>Frame pacing\<close>

lemma framePacing_subsecond:
  assumes "0 \<le> deltaTime w" and "deltaTime w < 1"
  shows "Sleep (framePacing w) = 16666666"
proof -
  from assms have "\<lfloor>deltaTime w\<rfloor> = 0" by linarith
  then show ?thesis using assms
    by (simp add: Sleep_def framePacing_def Duration_def wrap64_def Second_def
        signed_divide_int_def)
qed

text \<open>
  C2. After a frame delta of a hundredth of a second the loop sleeps the whole budget of
  16666666 nanoseconds, not the remainder of 6666666.67; after a delta of half a second,
  thirty times the budget, it sleeps the whole budget again instead of not at all. The
  conversion \<open>time.Duration(deltaTime)\<close> drops the fraction of the delta before the
  multiplication by \<open>time.Second\<close>, so every delta below one second counts as zero.
  From one second on the argument of \<open>time.Sleep\<close> is negative and there is no wait.
\<close>

theorem framePacing_sleeps_whole_budget:
  "Sleep (framePacing (frameClock (1 / 100) initialWorld)) = 16666666
   \<and> pacingBudgetRemainder (deltaTime (frameClock (1 / 100) initialWorld)) = 20000000 / 3
   \<and> Sleep (framePacing (frameClock (1 / 2) initialWorld)) = 16666666
   \<and> pacingBudgetRemainder (deltaTime (frameClock (1 / 2) initialWorld)) = 0
   \<and> Sleep (framePacing (frameClock (3 / 2) initialWorld)) = 0"
  by (simp add: Sleep_def framePacing_def frameClock_def initialWorld_def Duration_def
      wrap64_def Second_def pacingBudgetRemainder_def signed_divide_int_def)

subsection \<open>The geometry parser\<close>

lemma word_of_int_wrap64: "(word_of_int (wrap64 i) :: uint32) = word_of_int i"
proof -
  have "wrap64 i = i - 2 ^ 32 * (2 ^ 32 * ((i + 2 ^ 63) div 2 ^ 64))"
    by (simp add: wrap64_def minus_mult_div_eq_mod [symmetric])
  moreover have "(word_of_int (2 ^ 32) :: uint32) = 0"
    by simp
  ultimately show ?thesis
    by (simp only: word_of_int_homs(2) [symmetric] wi_hom_mult [symmetric] mult_zero_left diff_zero)
qed

lemma splitFrom_nonempty: "splitFrom sep cur s \<noteq> []"
  by (induction s arbitrary: cur) auto

lemma Split_nonempty: "Split s sep \<noteq> []"
  by (simp add: Split_def splitFrom_nonempty)

lemma ParseInt_syntax: "snd (ParseInt s) = Some ErrSyntax \<Longrightarrow> fst (ParseInt s) = 0"
  by (cases s) (auto simp: ParseInt_def Let_def split: if_splits)

lemma Atoi_syntax: "snd (Atoi s) = Some ErrSyntax \<Longrightarrow> fst (Atoi s) = 0"
proof (cases s)
  case Nil
  then show ?thesis by (simp add: Atoi_def ParseInt_def)
next
  case (Cons c cs)
  assume e: "snd (Atoi s) = Some ErrSyntax"
  show ?thesis
  proof (cases "length s < 19")
    case True
    with e Cons show ?thesis
      by (auto simp: Atoi_def Let_def split: if_splits option.splits)
  next
    case False
    with Cons have "Atoi s = ParseInt s" by (simp add: Atoi_def)
    with e ParseInt_syntax show ?thesis by simp
  qed
qed

lemma Atoi_zero: "Atoi ''0'' = (0, None)"
  by (simp add: Atoi_def isDigit_def digitVal_def)

lemma faceIndex_eq: "faceIndex field = word_of_int (fst (Atoi (hd (Split field (CHR ''/'')))) - 1)"
  by (simp add: faceIndex_def Let_def word_of_int_wrap64)

lemma scanLine_position:
  "positionRecord line \<Longrightarrow>
     scanLine E acc line = (fst acc @ [(ParseFloat32 E (Fields line ! 1),
        ParseFloat32 E (Fields line ! 2), ParseFloat32 E (Fields line ! 3))], snd acc)"
  by (auto simp: positionRecord_def scanLine_def Let_def split: list.splits)

lemma scanLine_face:
  "Fields line = ''f'' # refs \<Longrightarrow> 3 \<le> length refs \<Longrightarrow>
     scanLine E acc line = (fst acc, snd acc @ map faceIndex refs)"
  by (auto simp: scanLine_def Let_def)

lemma scanLine_triangle:
  "triangleRecord line \<Longrightarrow>
     scanLine E acc line = (fst acc, snd acc @ map faceIndex (tl (Fields line)))"
  by (auto simp: triangleRecord_def scanLine_face split: list.splits)

lemma scanLine_nothing:
  "contributesNothing line \<Longrightarrow> scanLine E acc line = acc"
  by (auto simp: contributesNothing_def scanLine_def Let_def split: list.splits)

lemma record_kinds_exclusive:
  "\<not> (positionRecord line \<and> triangleRecord line)"
  "\<not> (positionRecord line \<and> contributesNothing line)"
  "\<not> (triangleRecord line \<and> contributesNothing line)"
  by (auto simp: positionRecord_def triangleRecord_def contributesNothing_def split: list.splits)

lemma positionFloats_eq:
  "positionRecord line \<Longrightarrow>
     positionFloats E line = [ParseFloat32 E (Fields line ! 1),
        ParseFloat32 E (Fields line ! 2), ParseFloat32 E (Fields line ! 3)]"
proof -
  assume "positionRecord line"
  then obtain a b c rest where "Fields line = ''v'' # a # b # c # rest"
    by (auto simp: positionRecord_def split: list.splits) (metis Suc_le_length_iff numeral_3_eq_3)
  then show ?thesis by (simp add: positionFloats_def)
qed

lemma foldl_scanLine:
  assumes "\<forall>l \<in> set lines. positionRecord l \<or> triangleRecord l \<or> contributesNothing l"
  shows "foldl (scanLine E) acc lines =
     (fst acc @ map (\<lambda>l. (ParseFloat32 E (Fields l ! 1), ParseFloat32 E (Fields l ! 2),
                           ParseFloat32 E (Fields l ! 3))) (filter positionRecord lines),
      snd acc @ concat (map (\<lambda>l. map faceIndex (tl (Fields l))) (filter triangleRecord lines)))"
  using assms
proof (induction lines arbitrary: acc)
  case Nil
  then show ?case by simp
next
  case (Cons l lines)
  have rest: "\<forall>l \<in> set lines. positionRecord l \<or> triangleRecord l \<or> contributesNothing l"
    using Cons.prems by simp
  consider (p) "positionRecord l" | (t) "triangleRecord l" | (n) "contributesNothing l"
    using Cons.prems by auto
  then show ?case
  proof cases
    case p
    then have "\<not> triangleRecord l" using record_kinds_exclusive(1) by blast
    then show ?thesis using p Cons.IH [OF rest] by (simp add: scanLine_position)
  next
    case t
    then have "\<not> positionRecord l" using record_kinds_exclusive(1) by blast
    then show ?thesis using t Cons.IH [OF rest] by (simp add: scanLine_triangle)
  next
    case n
    then have "\<not> positionRecord l" "\<not> triangleRecord l"
      using record_kinds_exclusive(2,3) by blast+
    then show ?thesis using n Cons.IH [OF rest] by (simp add: scanLine_nothing)
  qed
qed

lemma flatten_positions:
  "flatten (map (\<lambda>l. (ParseFloat32 E (Fields l ! 1), ParseFloat32 E (Fields l ! 2),
                      ParseFloat32 E (Fields l ! 3))) (filter positionRecord lines))
   = concat (map (positionFloats E) (filter positionRecord lines))"
  by (induction lines) (auto simp: flatten_def positionFloats_eq)

lemma triangle_indices:
  "concat (map (\<lambda>l. map faceIndex (tl (Fields l))) ls)
   = map (\<lambda>r. word_of_int (fst (Atoi r) - 1)) (concat (map faceReferences ls))"
  by (induction ls) (auto simp: faceReferences_def faceIndex_eq)

lemma length_positionFloats: "positionRecord l \<Longrightarrow> length (positionFloats E l) = 3"
  by (simp add: positionFloats_eq)

lemma length_faceReferences: "triangleRecord l \<Longrightarrow> length (faceReferences l) = 3"
  by (auto simp: faceReferences_def triangleRecord_def split: list.splits)

lemma length_concat_const:
  "\<forall>x \<in> set xs. length (f x) = k \<Longrightarrow> length (concat (map f xs)) = k * length xs"
  by (induction xs) auto

text \<open>The buffers in terms of the lines that the scanner yields.\<close>

lemma loadOBJFile_lines:
  assumes "osOpen E filename = Some lines"
    and "\<forall>l \<in> set lines. positionRecord l \<or> triangleRecord l \<or> contributesNothing l"
  shows "\<exists>w'. loadOBJFile E filename w =
           Inr ((concat (map (positionFloats E) (filter positionRecord lines)),
                 map (\<lambda>r. word_of_int (fst (Atoi r) - 1))
                     (concat (map faceReferences (filter triangleRecord lines)))), w')"
  using assms(1)
  by (simp add: loadOBJFile_def Let_def foldl_scanLine [OF assms(2)] flatten_positions
      triangle_indices del: One_nat_def)

text \<open>\<open>Atoi\<close> reads an integer numeral within the range of \<open>int\<close> as its value.\<close>

lemma lsdValue_append: "lsdValue (xs @ [c]) = lsdValue xs + 10 ^ length xs * digitVal c"
  by (induction xs) (simp_all add: algebra_simps)

lemma decimalValue_Cons: "decimalValue (c # s) = digitVal c * 10 ^ length s + decimalValue s"
  by (simp add: decimalValue_def lsdValue_append)

lemma atoiDigits_value:
  "list_all isDigit s \<Longrightarrow> atoiDigits n s = Some (n * 10 ^ length s + int (decimalValue s))"
proof (induction s arbitrary: n)
  case Nil
  then show ?case by (simp add: decimalValue_def)
next
  case (Cons c s)
  then show ?case by (simp add: decimalValue_Cons algebra_simps)
qed

lemma parseUintLoop_value:
  "list_all isDigit s \<Longrightarrow> n * 10 ^ length s + decimalValue s \<le> maxUint64 \<Longrightarrow>
     parseUintLoop n s = (n * 10 ^ length s + decimalValue s, None)"
proof (induction s arbitrary: n)
  case Nil
  then show ?case by (simp add: decimalValue_def)
next
  case (Cons c s)
  define k where "k = (10 :: nat) ^ length s"
  have k: "1 \<le> k" by (simp add: k_def)
  have total: "(n * 10 + digitVal c) * k + decimalValue s \<le> maxUint64"
    using Cons.prems(2) by (simp add: decimalValue_Cons algebra_simps k_def)
  have "n * 10 + digitVal c \<le> (n * 10 + digitVal c) * k"
    using k by simp
  with total have step: "n * 10 + digitVal c \<le> maxUint64" by linarith
  then have cut: "\<not> maxUint64 div 10 + 1 \<le> n" by simp
  from Cons.prems(1) have d: "isDigit c" "list_all isDigit s" by simp_all
  from Cons.IH [OF d(2) total [unfolded k_def]] d(1) step cut show ?case
    by (simp add: decimalValue_Cons algebra_simps)
qed

lemma Atoi_integerValue:
  assumes "integerValue s = Some v" and "- (2 ^ 63) \<le> v" and "v < 2 ^ 63"
  shows "Atoi s = (v, None)"
proof (cases s)
  case Nil
  with assms(1) show ?thesis by (simp add: integerValue_def)
next
  case (Cons c cs)
  define body where "body = (if c = CHR ''+'' \<or> c = CHR ''-'' then cs else s)"
  from assms(1) Cons have b: "body \<noteq> []" "list_all isDigit body"
    and v: "v = (if c = CHR ''-'' then - int (decimalValue body) else int (decimalValue body))"
    by (auto simp: integerValue_def body_def Let_def split: if_splits)
  have s1: "(if c = CHR ''-'' \<or> c = CHR ''+'' then cs else s) = body"
    by (auto simp: body_def)
  show ?thesis
  proof (cases "length s < 19")
    case True
    from atoiDigits_value [OF b(2), of 0] have "atoiDigits 0 body = Some (int (decimalValue body))"
      by simp
    with True Cons b(1) v show ?thesis
      by (simp add: Atoi_def s1 [unfolded Cons] Let_def body_def [symmetric, unfolded Cons])
  next
    case False
    have le: "decimalValue body \<le> maxUint64"
      using assms(2,3) v by (auto simp: maxUint64_def split: if_splits)
    have pu: "ParseUint body = (decimalValue body, None)"
      using parseUintLoop_value [OF b(2), of 0] le b(1) by (simp add: ParseUint_def)
    have pi: "ParseInt s = (v, None)"
    proof (cases "c = CHR ''+'' \<or> c = CHR ''-''")
      case True
      then have "body = cs" by (simp add: body_def)
      with pu have "ParseUint cs = (decimalValue body, None)" by simp
      with True assms(2,3) v show ?thesis by (auto simp: ParseInt_def Cons Let_def)
    next
      case False
      then have "body = c # cs" by (simp add: body_def Cons)
      with pu have "ParseUint (c # cs) = (decimalValue body, None)" by simp
      with False assms(2,3) v show ?thesis by (simp add: ParseInt_def Cons Let_def)
    qed
    from False Cons pi show ?thesis by (simp add: Atoi_def)
  qed
qed

text \<open>The scanner yields every line of a file that has no line too long for its buffer.\<close>

lemma rawLinesFrom_line:
  "CHR 0x0A \<notin> set l \<Longrightarrow> rawLinesFrom cur (l @ CHR 0x0A # rest) = (cur @ l) # rawLinesFrom [] rest"
  by (induction l arbitrary: cur) auto

lemma rawLines_unlines:
  "\<forall>l \<in> set ls. CHR 0x0A \<notin> set l \<Longrightarrow> rawLines (unlines ls) = ls"
proof (induction ls)
  case Nil
  then show ?case by (simp add: rawLines_def unlines_def)
next
  case (Cons l ls)
  then have n: "CHR 0x0A \<notin> set l" and r: "rawLines (unlines ls) = ls" by simp_all
  have "unlines (l # ls) = l @ CHR 0x0A # unlines ls" by (simp add: unlines_def)
  then show ?case using rawLinesFrom_line [OF n, of "[]" "unlines ls"] r
    by (simp add: rawLines_def)
qed

lemma ScanLines_short:
  "\<forall>raw \<in> set (rawLines bytes). length raw < MaxScanTokenSize \<Longrightarrow>
     ScanLines bytes = fileLines bytes"
  by (simp add: ScanLines_def fileLines_def takeWhile_eq_all_conv [THEN iffD2])

lemma osOpen_short:
  "fileBytes E filename = Some bytes \<Longrightarrow>
   \<forall>raw \<in> set (rawLines bytes). length raw < MaxScanTokenSize \<Longrightarrow>
     osOpen E filename = Some (fileLines bytes)"
  by (simp add: osOpen_def ScanLines_short)

lemma ScanLines_unlines:
  assumes "\<forall>l \<in> set ls. CHR 0x0A \<notin> set l \<and> length l < MaxScanTokenSize \<and> dropCR l = l"
  shows "ScanLines (unlines ls) = ls"
proof -
  from assms have r: "rawLines (unlines ls) = ls" by (simp add: rawLines_unlines)
  from assms have "ScanLines (unlines ls) = fileLines (unlines ls)"
    by (simp add: ScanLines_short r)
  also from assms have "\<dots> = ls" by (simp add: fileLines_def r map_idI)
  finally show ?thesis .
qed

lemma fieldsFrom_hashes:
  "fieldsFrom 0 cur (replicate n (CHR ''#'')) =
     (if cur @ replicate n (CHR ''#'') = [] then [] else [cur @ replicate n (CHR ''#'')])"
proof (induction n arbitrary: cur)
  case 0
  then show ?case by simp
next
  case (Suc n)
  have "fieldsFrom 0 cur (replicate (Suc n) (CHR ''#''))
      = fieldsFrom 0 (cur @ [CHR ''#'']) (replicate n (CHR ''#''))"
    by (simp add: asciiSpace_def)
  then show ?case using Suc [of "cur @ [CHR ''#'']"] by (simp add: replicate_app_Cons_same)
qed

lemma Fields_hashes: "0 < n \<Longrightarrow> Fields (replicate n (CHR ''#'')) = [replicate n (CHR ''#'')]"
  using fieldsFrom_hashes [of "[]" n] by (simp add: Fields_def)

lemma hashes_not_token: "1 < n \<Longrightarrow> replicate n (CHR ''#'') \<noteq> [c]"
proof
  assume n: "1 < n" and e: "replicate n (CHR ''#'') = [c]"
  from e have "length (replicate n (CHR ''#'')) = length [c]" by (rule arg_cong)
  with n show False by simp
qed

text \<open>
  C1, amended. For every geometry file that opens, has no line of 65536 bytes or more
  and whose lines are position records, triangular face records and lines that
  contribute nothing (blank, another leading token, or fewer than three fields after
  the token), \<open>loadOBJFile\<close> returns: as vertex buffer the first three floats of the
  position records in file order, three per record; as index buffer, in file order,
  three indices per face record, each the integer that \<open>Atoi\<close> reads from the part of
  the field before the first \<open>/\<close>, less one, as an unsigned 32-bit number. What \<open>Atoi\<close>
  reads from an integer numeral within the range of \<open>int\<close> is the value of the numeral.
\<close>

theorem loadOBJFile_buffers:
  assumes "fileBytes E filename = Some bytes"
    and "\<forall>raw \<in> set (rawLines bytes). length raw < MaxScanTokenSize"
    and "\<forall>l \<in> set (fileLines bytes).
           positionRecord l \<or> triangleRecord l \<or> contributesNothing l"
  shows "(\<exists>w'. loadOBJFile E filename w =
           Inr ((concat (map (positionFloats E) (filter positionRecord (fileLines bytes))),
                 map (\<lambda>r. word_of_int (fst (Atoi r) - 1))
                     (concat (map faceReferences (filter triangleRecord (fileLines bytes))))),
                w'))
     \<and> length (concat (map (positionFloats E) (filter positionRecord (fileLines bytes))))
           = 3 * length (filter positionRecord (fileLines bytes))
     \<and> length (map (\<lambda>r. word_of_int (fst (Atoi r) - 1) :: uint32)
                     (concat (map faceReferences (filter triangleRecord (fileLines bytes)))))
           = 3 * length (filter triangleRecord (fileLines bytes))
     \<and> (\<forall>r v. integerValue r = Some v \<and> - (2 ^ 63) \<le> v \<and> v < 2 ^ 63
              \<longrightarrow> Atoi r = (v, None))"
proof (intro conjI)
  show "\<exists>w'. loadOBJFile E filename w =
           Inr ((concat (map (positionFloats E) (filter positionRecord (fileLines bytes))),
                 map (\<lambda>r. word_of_int (fst (Atoi r) - 1))
                     (concat (map faceReferences (filter triangleRecord (fileLines bytes))))),
                w')"
    by (rule loadOBJFile_lines [OF osOpen_short [OF assms(1,2)] assms(3)])
  show "length (concat (map (positionFloats E) (filter positionRecord (fileLines bytes))))
           = 3 * length (filter positionRecord (fileLines bytes))"
    by (rule length_concat_const) (simp add: length_positionFloats)
  have "length (concat (map faceReferences (filter triangleRecord (fileLines bytes))))
           = 3 * length (filter triangleRecord (fileLines bytes))"
    by (rule length_concat_const) (simp add: length_faceReferences)
  then show "length (map (\<lambda>r. word_of_int (fst (Atoi r) - 1) :: uint32)
                     (concat (map faceReferences (filter triangleRecord (fileLines bytes)))))
           = 3 * length (filter triangleRecord (fileLines bytes))"
    by simp
  show "\<forall>r v. integerValue r = Some v \<and> - (2 ^ 63) \<le> v \<and> v < 2 ^ 63
              \<longrightarrow> Atoi r = (v, None)"
    using Atoi_integerValue by blast
qed

theorem loadOBJFile_buffers_witness:
  "fileBytes (exampleExtern [(''r.obj'', referencesOBJ)]) ''r.obj'' = Some (unlines referencesOBJ)
   \<and> list_all (\<lambda>raw. length raw < MaxScanTokenSize) (rawLines (unlines referencesOBJ))
   \<and> list_all (\<lambda>l. positionRecord l \<or> triangleRecord l \<or> contributesNothing l)
        (fileLines (unlines referencesOBJ))
   \<and> (\<exists>w'. loadOBJFile (exampleExtern [(''r.obj'', referencesOBJ)]) ''r.obj'' initialWorld =
           Inr (([10, - 20, 30], [11, 344, 99, 0, 4294967294, 4294967294]), w'))
   \<and> integerValue ''0000000000000000000100'' = Some 100
   \<and> Atoi ''0000000000000000000100'' = (100, None)
   \<and> integerValue ''-1'' = Some (- 1)
   \<and> Atoi ''-1'' = (- 1, None)"
proof -
  let ?E = "exampleExtern [(''r.obj'', referencesOBJ)]"
  let ?ls = "[''# references'', ''v 10 -20 +30'', ''f 12 345/6 0000000000000000000100'',
              ''f 4294967297/1 -1 9223372036854775807'']"
  have b: "fileBytes ?E ''r.obj'' = Some (unlines referencesOBJ)"
    by (simp add: exampleExtern_def)
  have rl: "rawLines (unlines referencesOBJ) = referencesOBJ"
    by (rule rawLines_unlines) (simp add: referencesOBJ_def)
  have fl: "fileLines (unlines referencesOBJ) = ?ls"
    by (simp add: fileLines_def rl) (simp add: referencesOBJ_def dropCR_def)
  have s: "\<forall>raw \<in> set (rawLines (unlines referencesOBJ)). length raw < MaxScanTokenSize"
    unfolding rl by (simp add: referencesOBJ_def MaxScanTokenSize_def)
  have f: "map Fields ?ls =
     [[''#'', ''references''], [''v'', ''10'', ''-20'', ''+30''],
      [''f'', ''12'', ''345/6'', ''0000000000000000000100''],
      [''f'', ''4294967297/1'', ''-1'', ''9223372036854775807'']]"
    by (simp add: Fields_def asciiSpace_def)
  have k: "\<forall>l \<in> set (fileLines (unlines referencesOBJ)).
             positionRecord l \<or> triangleRecord l \<or> contributesNothing l"
    unfolding fl using f
    by (simp add: positionRecord_def triangleRecord_def contributesNothing_def)
  have p: "filter positionRecord (fileLines (unlines referencesOBJ)) = [''v 10 -20 +30'']"
    unfolding fl using f by (simp add: positionRecord_def)
  have t: "filter triangleRecord (fileLines (unlines referencesOBJ))
      = [''f 12 345/6 0000000000000000000100'', ''f 4294967297/1 -1 9223372036854775807'']"
    unfolding fl using f by (simp add: triangleRecord_def)
  have v: "concat (map (positionFloats ?E) (filter positionRecord (fileLines (unlines referencesOBJ))))
      = [10, - 20, 30]"
    unfolding p using f
    by (simp add: positionFloats_def exampleExtern_def Atoi_def isDigit_def digitVal_def)
  have r: "concat (map faceReferences (filter triangleRecord (fileLines (unlines referencesOBJ))))
      = [''12'', ''345'', ''0000000000000000000100'', ''4294967297'', ''-1'',
         ''9223372036854775807'']"
    unfolding t using f by (simp add: faceReferences_def Split_def)
  have a: "Atoi ''12'' = (12, None)" "Atoi ''345'' = (345, None)"
    "Atoi ''4294967297'' = (4294967297, None)"
    by (simp_all add: Atoi_def isDigit_def digitVal_def)
  have n: "integerValue ''0000000000000000000100'' = Some 100"
    "integerValue ''-1'' = Some (- 1)"
    "integerValue ''9223372036854775807'' = Some 9223372036854775807"
    by (simp_all add: integerValue_def decimalValue_def isDigit_def digitVal_def)
  note c = loadOBJFile_buffers [OF b s k, of initialWorld]
  note c4 = c [THEN conjunct2, THEN conjunct2, THEN conjunct2]
  have z: "Atoi ''0000000000000000000100'' = (100, None)"
    using c4 [THEN spec, THEN spec, THEN mp, of "''0000000000000000000100''" 100] n(1) by simp
  have m: "Atoi ''-1'' = (- 1, None)"
    using c4 [THEN spec, THEN spec, THEN mp, of "''-1''" "- 1"] n(2) by simp
  have x: "Atoi ''9223372036854775807'' = (9223372036854775807, None)"
    using c4 [THEN spec, THEN spec, THEN mp, of "''9223372036854775807''" 9223372036854775807]
      n(3) by simp
  have i: "map (\<lambda>r. word_of_int (fst (Atoi r) - 1) :: uint32)
             (concat (map faceReferences (filter triangleRecord (fileLines (unlines referencesOBJ)))))
      = [11, 344, 99, 0, 4294967294, 4294967294]"
    unfolding r by (simp add: a z m x)
  from c have l: "\<exists>w'. loadOBJFile ?E ''r.obj'' initialWorld =
           Inr (([10, - 20, 30], [11, 344, 99, 0, 4294967294, 4294967294]), w')"
    unfolding v i by (rule conjunct1)
  have s': "list_all (\<lambda>raw. length raw < MaxScanTokenSize) (rawLines (unlines referencesOBJ))"
    using s by (simp only: list_all_iff)
  have k': "list_all (\<lambda>l. positionRecord l \<or> triangleRecord l \<or> contributesNothing l)
        (fileLines (unlines referencesOBJ))"
    using k by (simp only: list_all_iff)
  show ?thesis
    by (intro conjI) (rule b s' k' l n(1) z n(2) m)+
qed

text \<open>
  C1 as stated fails for a file with a line too long for the scanner. The file below
  has two position records and two triangular face records around a comment line of
  70000 bytes; the scan ends at that line, and the buffers hold three floats and three
  indices, not six and six: the records after the long line are not read. It also fails
  for a reference outside the range of \<open>int\<close>: the index of \<open>99999999999999999999\<close> is
  4294967294, which is not that integer less one as an unsigned 32-bit number.
\<close>

theorem loadOBJFile_long_line_counterexample:
  "fileBytes (exampleExtern [(''long.obj'', longLineOBJ)]) ''long.obj''
     = Some (unlines longLineOBJ)
   \<and> fileLines (unlines longLineOBJ) = longLineOBJ
   \<and> map positionRecord longLineOBJ = [True, False, False, True, False]
   \<and> map triangleRecord longLineOBJ = [False, True, False, False, True]
   \<and> map contributesNothing longLineOBJ = [False, False, True, False, False]
   \<and> loadOBJFile (exampleExtern [(''long.obj'', longLineOBJ)]) ''long.obj'' initialWorld
       = Inr (([0, 0, 0], [0, 0, 0]), initialWorld\<lparr>logged := [LogLoaded 1 3]\<rparr>)
   \<and> integerValue ''99999999999999999999'' = Some 99999999999999999999
   \<and> faceIndex ''99999999999999999999'' = 4294967294
   \<and> (word_of_int (99999999999999999999 - 1) :: uint32) = 1661992958"
proof -
  let ?E = "exampleExtern [(''long.obj'', longLineOBJ)]"
  have b: "fileBytes ?E ''long.obj'' = Some (unlines longLineOBJ)"
    by (simp add: exampleExtern_def)
  have rl: "rawLines (unlines longLineOBJ) = longLineOBJ"
    by (rule rawLines_unlines) (simp add: longLineOBJ_def)
  have fl: "fileLines (unlines longLineOBJ) = longLineOBJ"
    by (simp add: fileLines_def rl) (simp add: longLineOBJ_def dropCR_def)
  have sl: "ScanLines (unlines longLineOBJ) = [''v 0 0 0'', ''f 1 1 1'']"
    by (simp add: ScanLines_def rl) (simp add: longLineOBJ_def MaxScanTokenSize_def dropCR_def)
  have o: "osOpen ?E ''long.obj'' = Some [''v 0 0 0'', ''f 1 1 1'']"
    by (simp add: osOpen_def b sl)
  have h: "Fields (replicate 70000 (CHR ''#'')) = [replicate 70000 (CHR ''#'')]"
    by (rule Fields_hashes) simp
  have f: "map Fields [''v 0 0 0'', ''f 1 1 1'', ''v 1 1 1'', ''f 1 2 2'']
      = [[''v'', ''0'', ''0'', ''0''], [''f'', ''1'', ''1'', ''1''],
         [''v'', ''1'', ''1'', ''1''], [''f'', ''1'', ''2'', ''2'']]"
    by (simp add: Fields_def asciiSpace_def)
  have ne: "replicate 70000 (CHR ''#'') \<noteq> ''v''" "replicate 70000 (CHR ''#'') \<noteq> ''f''"
    using hashes_not_token [of 70000] by simp_all
  have kp: "map positionRecord longLineOBJ = [True, False, False, True, False]"
    using f h ne by (simp add: longLineOBJ_def positionRecord_def)
  have kt: "map triangleRecord longLineOBJ = [False, True, False, False, True]"
    using f h ne by (simp add: longLineOBJ_def triangleRecord_def)
  have kc: "map contributesNothing longLineOBJ = [False, False, True, False, False]"
    using f h ne by (simp add: longLineOBJ_def contributesNothing_def)
  have sc: "foldl (scanLine ?E) ([], []) [''v 0 0 0'', ''f 1 1 1''] = ([(0, 0, 0)], [0, 0, 0])"
    using f
    by (simp add: scanLine_def exampleExtern_def faceIndex_def Split_def Atoi_def isDigit_def
        digitVal_def wrap64_def)
  have l: "loadOBJFile ?E ''long.obj'' initialWorld
       = Inr (([0, 0, 0], [0, 0, 0]), initialWorld\<lparr>logged := [LogLoaded 1 3]\<rparr>)"
    using sc
    by (simp add: loadOBJFile_def o flatten_def signed_divide_int_def initialWorld_def Let_def)
  have n: "integerValue ''99999999999999999999'' = Some 99999999999999999999"
    by (simp add: integerValue_def decimalValue_def isDigit_def digitVal_def)
  have a: "Atoi ''99999999999999999999'' = (9223372036854775807, Some ErrRange)"
    by (simp add: Atoi_def ParseInt_def ParseUint_def isDigit_def digitVal_def maxUint64_def)
  have x: "faceIndex ''99999999999999999999'' = 4294967294"
    by (simp add: faceIndex_eq Split_def a)
  have w: "(word_of_int (99999999999999999999 - 1) :: uint32) = 1661992958"
    by simp
  show ?thesis
    by (intro conjI) (rule b fl kp kt kc l n x w)+
qed

text \<open>
  C10, amended. A face field whose leading component is a syntax error for \<open>Atoi\<close>
  (which then returns 0) or is the string \<open>0\<close> puts 4294967295 into the index buffer,
  at the position of the field: the entry is neither zero nor skipped.
\<close>

theorem faceIndex_syntax_error_or_zero:
  assumes "Fields line = ''f'' # refs" and "3 \<le> length refs" and "k < length refs"
    and "snd (Atoi (hd (Split (refs ! k) (CHR ''/'')))) = Some ErrSyntax
         \<or> hd (Split (refs ! k) (CHR ''/'')) = ''0''"
  shows "snd (scanLine E acc line) = snd acc @ map faceIndex refs
     \<and> length (snd (scanLine E acc line)) = length (snd acc) + length refs
     \<and> snd (scanLine E acc line) ! (length (snd acc) + k) = 4294967295"
proof -
  have z: "fst (Atoi (hd (Split (refs ! k) (CHR ''/'')))) = 0"
    using assms(4) Atoi_syntax Atoi_zero by auto
  have "faceIndex (refs ! k) = 4294967295"
    by (simp add: faceIndex_eq z)
  then show ?thesis
    using assms(3) by (simp add: scanLine_face [OF assms(1,2)] nth_append)
qed

theorem faceIndex_syntax_error_or_zero_witness:
  "Fields ''f 0 x/2 7'' = ''f'' # [''0'', ''x/2'', ''7'']
   \<and> snd (Atoi (hd (Split ([''0'', ''x/2'', ''7''] ! 1) (CHR ''/'')))) = Some ErrSyntax
   \<and> hd (Split ([''0'', ''x/2'', ''7''] ! 0) (CHR ''/'')) = ''0''
   \<and> snd (scanLine (exampleExtern []) ([], [5]) ''f 0 x/2 7'') = [5, 4294967295, 4294967295, 6]"
proof -
  have f: "Fields ''f 0 x/2 7'' = ''f'' # [''0'', ''x/2'', ''7'']"
    by (simp add: Fields_def asciiSpace_def)
  have l: "3 \<le> length [''0'', ''x/2'', ''7'']" "1 < length [''0'', ''x/2'', ''7'']"
    by simp_all
  have e: "snd (Atoi (hd (Split ([''0'', ''x/2'', ''7''] ! 1) (CHR ''/'')))) = Some ErrSyntax"
    by (simp add: Split_def Atoi_def isDigit_def)
  have z: "hd (Split ([''0'', ''x/2'', ''7''] ! 0) (CHR ''/'')) = ''0''"
    by (simp add: Split_def)
  have i: "map faceIndex [''0'', ''x/2'', ''7''] = [4294967295, 4294967295, 6]"
    by (simp add: faceIndex_eq Split_def Atoi_def isDigit_def digitVal_def)
  from faceIndex_syntax_error_or_zero [OF f l disjI1, OF e, of "exampleExtern []" "([], [5])"]
  have "snd (scanLine (exampleExtern []) ([], [5]) ''f 0 x/2 7'') = [5, 4294967295, 4294967295, 6]"
    using i by simp
  with f e z show ?thesis by (intro conjI)
qed

text \<open>
  C10 as stated fails for a leading component that \<open>Atoi\<close> rejects as out of range:
  the parse fails, but the value it returns is the largest \<open>int\<close>, not zero, and the
  index is 4294967294.
\<close>

theorem faceIndex_range_error_counterexample:
  "snd (Atoi (hd (Split ''99999999999999999999'' (CHR ''/'')))) = Some ErrRange
   \<and> fst (Atoi (hd (Split ''99999999999999999999'' (CHR ''/'')))) = 9223372036854775807
   \<and> faceIndex ''99999999999999999999'' = 4294967294
   \<and> faceIndex ''99999999999999999999'' \<noteq> 4294967295
   \<and> snd (scanLine (exampleExtern []) ([], []) ''f 99999999999999999999 1 2'')
       = [4294967294, 0, 1]"
proof -
  have a: "Atoi ''99999999999999999999'' = (9223372036854775807, Some ErrRange)"
    by (simp add: Atoi_def ParseInt_def ParseUint_def isDigit_def digitVal_def maxUint64_def)
  have s: "Split ''99999999999999999999'' (CHR ''/'') = [''99999999999999999999'']"
    by (simp add: Split_def)
  have x: "faceIndex ''99999999999999999999'' = 4294967294"
    by (simp add: faceIndex_eq s a)
  have f: "Fields ''f 99999999999999999999 1 2'' = [''f'', ''99999999999999999999'', ''1'', ''2'']"
    by (simp add: Fields_def asciiSpace_def)
  have o: "faceIndex ''1'' = 0" "faceIndex ''2'' = 1"
    by (simp_all add: faceIndex_eq Split_def Atoi_def isDigit_def digitVal_def)
  show ?thesis
    by (simp add: s a x scanLine_def f o)
qed

subsection \<open>Loading a scene\<close>

lemma boundsLoop_flatten: "\<exists>b'. boundsLoop (flatten tv) b = Inr b'"
proof (induction tv arbitrary: b)
  case Nil
  then show ?case by (simp add: flatten_def)
next
  case (Cons t tv)
  obtain x y z where t: "t = (x, y, z)" by (cases t)
  have "flatten (t # tv) = x # y # z # flatten tv"
    by (simp add: flatten_def t)
  then show ?case using Cons.IH by simp
qed

lemma flatten_nonempty: "flatten tv \<noteq> [] \<Longrightarrow> \<exists>x y z rest. flatten tv = x # y # z # rest"
  by (cases tv) (auto simp: flatten_def)

lemma calculateBounds_flatten:
  assumes "flatten tv \<noteq> []"
  shows "\<exists>b. \<forall>u. calculateBounds (flatten tv) u = Inr (b, u\<lparr>logged := logged u @ [LogMeshBounds b]\<rparr>)"
proof -
  from flatten_nonempty [OF assms] obtain x y z rest where
    v: "flatten tv = x # y # z # rest" by blast
  obtain b where
    b: "boundsLoop (flatten tv)
          \<lparr> minX = x, minY = y, minZ = z, maxX = x, maxY = y, maxZ = z \<rparr> = Inr b"
    using boundsLoop_flatten by blast
  have "calculateBounds (flatten tv) u = Inr (b, u\<lparr>logged := logged u @ [LogMeshBounds b]\<rparr>)" for u
    using b unfolding v by (simp add: calculateBounds_def)
  then show ?thesis by blast
qed

text \<open>The three ways \<open>loadSingleMesh\<close> can go for a file.\<close>

lemma loadSingleMesh_unreadable:
  "osOpen E f = None \<Longrightarrow> loadSingleMesh E p f w = Inl (FatalOpen f)"
  by (simp add: loadSingleMesh_def loadOBJFile_def)

lemma loadSingleMesh_degenerate:
  assumes "degenerateFile E f"
  shows "\<exists>n k. loadSingleMesh E p f w
           = Inr (emptyMeshData, w\<lparr>logged := logged w @ [LogLoaded n k, LogWarnNoMeshData f]\<rparr>)"
proof -
  from assms obtain lines where o: "osOpen E f = Some lines"
    and d: "flatten (fst (foldl (scanLine E) ([], []) lines)) = []
            \<or> snd (foldl (scanLine E) ([], []) lines) = []"
    by (auto simp: degenerateFile_def split: option.splits)
  show ?thesis
    using d by (auto simp: loadSingleMesh_def loadOBJFile_def o Let_def)
qed

lemma loadSingleMesh_regular:
  assumes "osOpen E f = Some lines" and "\<not> degenerateFile E f"
  shows "\<exists>vs is b n k. \<forall>w. loadSingleMesh E p f w
           = Inr (\<lparr> vertices = vs, indices = is, bounds = b, vao = glNextName w,
                     vbo = glNextName w + 1, ebo = glNextName w + 1 + 1 \<rparr>,
                  w\<lparr> logged := logged w @ [LogLoaded n k, LogMeshBounds b],
                     glNextName := glNextName w + 1 + 1 + 1,
                     glArrays := glArrays w @ [glNextName w],
                     glBuffers := glBuffers w @ [glNextName w + 1, glNextName w + 1 + 1] \<rparr>)"
proof -
  let ?acc = "foldl (scanLine E) ([], []) lines"
  from assms have nd: "flatten (fst ?acc) \<noteq> []" "snd ?acc \<noteq> []"
    by (auto simp: degenerateFile_def)
  from calculateBounds_flatten [OF nd(1)] obtain b where
    b: "\<And>u. calculateBounds (flatten (fst ?acc)) u
            = Inr (b, u\<lparr>logged := logged u @ [LogMeshBounds b]\<rparr>)"
    by blast
  have "loadSingleMesh E p f w
           = Inr (\<lparr> vertices = flatten (fst ?acc), indices = snd ?acc, bounds = b,
                     vao = glNextName w, vbo = glNextName w + 1, ebo = glNextName w + 1 + 1 \<rparr>,
                  w\<lparr> logged := logged w @ [LogLoaded (int (length (flatten (fst ?acc))) sdiv 3)
                                                     (int (length (snd ?acc))), LogMeshBounds b],
                     glNextName := glNextName w + 1 + 1 + 1,
                     glArrays := glArrays w @ [glNextName w],
                     glBuffers := glBuffers w @ [glNextName w + 1, glNextName w + 1 + 1] \<rparr>)" for w
    using nd
    by (simp add: loadSingleMesh_def loadOBJFile_def assms(1) Let_def b GenVertexArrays_def
        GenBuffers_def)
  then show ?thesis by blast
qed

lemma loadSingleMesh_opens:
  assumes "osOpen E f = Some lines"
  shows "\<exists>m w'. loadSingleMesh E p f w = Inr (m, w')"
proof (cases "degenerateFile E f")
  case True
  from loadSingleMesh_degenerate [OF True, of p w] show ?thesis by blast
next
  case False
  from loadSingleMesh_regular [OF assms False, of p] show ?thesis by blast
qed

lemma loadSingleMesh_Inr_opens:
  "loadSingleMesh E p f w = Inr (m, w') \<Longrightarrow> \<exists>lines. osOpen E f = Some lines"
  by (cases "osOpen E f") (simp_all add: loadSingleMesh_unreadable)

lemma loadSingleMesh_geometry:
  assumes "loadSingleMesh E p f u = Inr (m, u')" and "loadSingleMesh E p f w = Inr (m', w')"
  shows "meshGeometry m' = meshGeometry m"
proof -
  from assms(1) obtain lines where o: "osOpen E f = Some lines"
    using loadSingleMesh_Inr_opens by blast
  show ?thesis
  proof (cases "degenerateFile E f")
    case True
    from loadSingleMesh_degenerate [OF True, of p u] loadSingleMesh_degenerate [OF True, of p w]
    show ?thesis using assms by auto
  next
    case False
    from loadSingleMesh_regular [OF o False, of p] obtain vs "is" b n k where
      r: "\<And>w. loadSingleMesh E p f w
           = Inr (\<lparr> vertices = vs, indices = is, bounds = b, vao = glNextName w,
                     vbo = glNextName w + 1, ebo = glNextName w + 1 + 1 \<rparr>,
                  w\<lparr> logged := logged w @ [LogLoaded n k, LogMeshBounds b],
                     glNextName := glNextName w + 1 + 1 + 1,
                     glArrays := glArrays w @ [glNextName w],
                     glBuffers := glBuffers w @ [glNextName w + 1, glNextName w + 1 + 1] \<rparr>)"
      by blast
    from assms show ?thesis unfolding r by (auto simp: meshGeometry_def)
  qed
qed

lemma loadSingleMesh_log:
  assumes "loadSingleMesh E p f w = Inr (m, w')"
  shows "set (logged w) \<subseteq> set (logged w')
     \<and> (degenerateFile E f \<longrightarrow> m = emptyMeshData \<and> LogWarnNoMeshData f \<in> set (logged w'))"
proof -
  from assms obtain lines where o: "osOpen E f = Some lines"
    using loadSingleMesh_Inr_opens by blast
  show ?thesis
  proof (cases "degenerateFile E f")
    case True
    from loadSingleMesh_degenerate [OF True, of p w] show ?thesis using assms True by auto
  next
    case False
    from loadSingleMesh_regular [OF o False, of p] obtain vs "is" b n k where
      r: "\<And>w. loadSingleMesh E p f w
           = Inr (\<lparr> vertices = vs, indices = is, bounds = b, vao = glNextName w,
                     vbo = glNextName w + 1, ebo = glNextName w + 1 + 1 \<rparr>,
                  w\<lparr> logged := logged w @ [LogLoaded n k, LogMeshBounds b],
                     glNextName := glNextName w + 1 + 1 + 1,
                     glArrays := glArrays w @ [glNextName w],
                     glBuffers := glBuffers w @ [glNextName w + 1, glNextName w + 1 + 1] \<rparr>)"
      by blast
    from assms False show ?thesis unfolding r by auto
  qed
qed

lemma loadRemaining_log:
  "loadRemaining E p fs sc w = Inr (sc', w') \<Longrightarrow> set (logged w) \<subseteq> set (logged w')"
proof (induction fs arbitrary: sc w)
  case Nil
  then show ?case by simp
next
  case (Cons f fs)
  from Cons.prems obtain m w1 where
    s: "loadSingleMesh E p f w = Inr (m, w1)"
    and r: "loadRemaining E p fs \<lparr> meshes = meshes sc @ [m],
              scene_bounds = combineBounds (scene_bounds sc) (bounds m) \<rparr> w1 = Inr (sc', w')"
    by (auto split: sum.splits)
  from loadSingleMesh_log [OF s] Cons.IH [OF r] show ?case by blast
qed


text \<open>The loop adds one mesh record per file, in order, each loaded from its file.\<close>

lemma loadRemaining_meshes:
  "loadRemaining E p fs sc w = Inr (sc', w') \<Longrightarrow>
     \<exists>ms. meshes sc' = meshes sc @ ms \<and> list_all2 (loadedFrom E p) fs ms"
proof (induction fs arbitrary: sc w)
  case Nil
  then show ?case by auto
next
  case (Cons f fs)
  from Cons.prems obtain m w1 where
    s: "loadSingleMesh E p f w = Inr (m, w1)"
    and r: "loadRemaining E p fs \<lparr> meshes = meshes sc @ [m],
              scene_bounds = combineBounds (scene_bounds sc) (bounds m) \<rparr> w1 = Inr (sc', w')"
    by (auto split: sum.splits)
  from Cons.IH [OF r] obtain ms where
    ms: "meshes sc' = (meshes sc @ [m]) @ ms" "list_all2 (loadedFrom E p) fs ms"
    by auto
  have "loadedFrom E p f m" using s by (auto simp: loadedFrom_def)
  then have "list_all2 (loadedFrom E p) (f # fs) (m # ms)" using ms(2) by simp
  moreover have "meshes sc' = meshes sc @ (m # ms)" using ms(1) by simp
  ultimately show ?case by blast
qed

lemma loadRemaining_succeeds:
  "\<forall>f \<in> set fs. osOpen E f \<noteq> None \<Longrightarrow> \<exists>sc' w'. loadRemaining E p fs sc w = Inr (sc', w')"
proof (induction fs arbitrary: sc w)
  case Nil
  then show ?case by simp
next
  case (Cons f fs)
  then obtain lines where "osOpen E f = Some lines" by auto
  from loadSingleMesh_opens [OF this, of p w] obtain m w1 where
    "loadSingleMesh E p f w = Inr (m, w1)" by blast
  then show ?case using Cons by simp
qed

lemma loadRemaining_opens:
  "loadRemaining E p fs sc w = Inr (sc', w') \<Longrightarrow> \<forall>f \<in> set fs. osOpen E f \<noteq> None"
proof (induction fs arbitrary: sc w)
  case Nil
  then show ?case by simp
next
  case (Cons f fs)
  from Cons.prems obtain m w1 where
    s: "loadSingleMesh E p f w = Inr (m, w1)"
    and r: "loadRemaining E p fs \<lparr> meshes = meshes sc @ [m],
              scene_bounds = combineBounds (scene_bounds sc) (bounds m) \<rparr> w1 = Inr (sc', w')"
    by (auto split: sum.splits)
  from loadSingleMesh_Inr_opens [OF s] Cons.IH [OF r] show ?case by auto
qed

lemma loadRemaining_warns:
  "loadRemaining E p fs sc w = Inr (sc', w') \<Longrightarrow> d \<in> set fs \<Longrightarrow> degenerateFile E d \<Longrightarrow>
     LogWarnNoMeshData d \<in> set (logged w')"
proof (induction fs arbitrary: sc w)
  case Nil
  then show ?case by simp
next
  case (Cons f fs)
  from Cons.prems(1) obtain m w1 where
    s: "loadSingleMesh E p f w = Inr (m, w1)"
    and r: "loadRemaining E p fs \<lparr> meshes = meshes sc @ [m],
              scene_bounds = combineBounds (scene_bounds sc) (bounds m) \<rparr> w1 = Inr (sc', w')"
    by (auto split: sum.splits)
  show ?case
  proof (cases "d = f")
    case True
    from loadSingleMesh_log [OF s] Cons.prems(3) True
    have "LogWarnNoMeshData d \<in> set (logged w1)" by auto
    then show ?thesis using loadRemaining_log [OF r] by blast
  next
    case False
    then have "d \<in> set fs" using Cons.prems(2) by simp
    from Cons.IH [OF r this Cons.prems(3)] show ?thesis .
  qed
qed

text \<open>\<open>loadAllMeshes\<close> is the loop run on the whole list from the empty scene, but for the
  seed of the combined bounds and the camera.\<close>

lemma loadAllMeshes_succeeds:
  "fs \<noteq> [] \<Longrightarrow> \<forall>f \<in> set fs. osOpen E f \<noteq> None \<Longrightarrow>
     \<exists>sc' w'. loadAllMeshes E p fs w = Inr (sc', w')"
proof -
  assume n: "fs \<noteq> []" and o: "\<forall>f \<in> set fs. osOpen E f \<noteq> None"
  then obtain f rest where fs: "fs = f # rest" by (cases fs) auto
  with o obtain lines where "osOpen E f = Some lines" by auto
  from loadSingleMesh_opens [OF this, of p w] obtain m w1 where
    s: "loadSingleMesh E p f w = Inr (m, w1)" by blast
  from o fs have "\<forall>f \<in> set rest. osOpen E f \<noteq> None" by simp
  from loadRemaining_succeeds [OF this, of p "\<lparr> meshes = [m], scene_bounds = bounds m \<rparr>" w1]
  show ?thesis using s by (auto simp: loadAllMeshes_def fs)
qed

lemma loadAllMeshes_result:
  assumes "loadAllMeshes E p fs w = Inr (sc', w')"
  shows "fs \<noteq> [] \<and> (\<forall>f \<in> set fs. osOpen E f \<noteq> None)
     \<and> list_all2 (loadedFrom E p) fs (meshes sc')
     \<and> (\<forall>d \<in> set fs. degenerateFile E d \<longrightarrow> LogWarnNoMeshData d \<in> set (logged w'))"
proof -
  from assms obtain f rest where fs: "fs = f # rest"
    by (cases fs) (auto simp: loadAllMeshes_def)
  from assms fs obtain m w1 w2 where
    s: "loadSingleMesh E p f w = Inr (m, w1)"
    and r: "loadRemaining E p rest \<lparr> meshes = [m], scene_bounds = bounds m \<rparr> w1 = Inr (sc', w2)"
    and w': "w' = initializeCamera (scene_bounds sc') w2"
    by (auto simp: loadAllMeshes_def split: sum.splits)
  have lg: "logged w' = logged w2" using w' by (simp add: initializeCamera_def Let_def)
  from loadRemaining_meshes [OF r] obtain ms where
    ms: "meshes sc' = [m] @ ms" "list_all2 (loadedFrom E p) rest ms" by auto
  have "loadedFrom E p f m" using s by (auto simp: loadedFrom_def)
  then have a: "list_all2 (loadedFrom E p) fs (meshes sc')" using ms fs by simp
  have b: "\<forall>f \<in> set fs. osOpen E f \<noteq> None"
    using loadSingleMesh_Inr_opens [OF s] loadRemaining_opens [OF r] fs by auto
  have c: "LogWarnNoMeshData d \<in> set (logged w')" if "d \<in> set fs" "degenerateFile E d" for d
  proof (cases "d = f")
    case True
    from loadSingleMesh_log [OF s] that(2) True
    have "LogWarnNoMeshData d \<in> set (logged w1)" by auto
    then show ?thesis using loadRemaining_log [OF r] lg by auto
  next
    case False
    then have "d \<in> set rest" using that(1) fs by simp
    from loadRemaining_warns [OF r this that(2)] lg show ?thesis by simp
  qed
  show ?thesis using fs a b c by auto
qed

lemma loadedFrom_geometry:
  "loadedFrom E p f m \<Longrightarrow> loadedFrom E p f m' \<Longrightarrow> meshGeometry m' = meshGeometry m"
  unfolding loadedFrom_def using loadSingleMesh_geometry by blast

lemma loadedFrom_degenerate:
  "degenerateFile E f \<Longrightarrow> loadedFrom E p f m \<Longrightarrow> m = emptyMeshData"
  unfolding loadedFrom_def using loadSingleMesh_log [of E p f] by blast

lemma list_all2_geometry:
  "list_all2 (loadedFrom E p) fs ms \<Longrightarrow> list_all2 (loadedFrom E p) fs ms' \<Longrightarrow>
     map meshGeometry ms' = map meshGeometry ms"
proof (induction fs arbitrary: ms ms')
  case Nil
  then show ?case by simp
next
  case (Cons f fs)
  from Cons.prems(1) obtain m ms1 where
    m: "ms = m # ms1" "loadedFrom E p f m" "list_all2 (loadedFrom E p) fs ms1"
    by (cases ms) auto
  from Cons.prems(2) obtain m' ms1' where
    m': "ms' = m' # ms1'" "loadedFrom E p f m'" "list_all2 (loadedFrom E p) fs ms1'"
    by (cases ms') auto
  from Cons.IH [OF m(3) m'(3)] loadedFrom_geometry [OF m(2) m'(2)] show ?case
    by (simp add: m(1) m'(1))
qed

text \<open>
  C8. Let a file of the list open and parse to no vertices or to no indices, and let the
  other files of the list open. Then the load of the list succeeds: it is not aborted.
  The record at the place of the file is the empty \<open>MeshData{}\<close>, and the warning for
  the file is in the log. When there are other files, the load of the list without the
  file succeeds as well, and the records before and after the file have the vertex
  buffers, index buffers and bounds of its records.
\<close>

theorem degenerate_file_keeps_siblings:
  assumes "degenerateFile E d"
    and "\<forall>f \<in> set (pre @ post). osOpen E f \<noteq> None"
  shows "\<exists>sc' w'. loadAllMeshes E program (pre @ d # post) w = Inr (sc', w')
     \<and> length (meshes sc') = length pre + 1 + length post
     \<and> meshes sc' ! length pre = emptyMeshData
     \<and> LogWarnNoMeshData d \<in> set (logged w')
     \<and> (pre @ post \<noteq> [] \<longrightarrow>
          (\<exists>sc w1. loadAllMeshes E program (pre @ post) w = Inr (sc, w1)
             \<and> map meshGeometry (take (length pre) (meshes sc'))
                  = map meshGeometry (take (length pre) (meshes sc))
             \<and> map meshGeometry (drop (length pre + 1) (meshes sc'))
                  = map meshGeometry (drop (length pre) (meshes sc))))"
proof -
  have "osOpen E d \<noteq> None"
    using assms(1) by (auto simp: degenerateFile_def split: option.splits)
  with assms(2) have "pre @ d # post \<noteq> []" "\<forall>f \<in> set (pre @ d # post). osOpen E f \<noteq> None"
    by auto
  from loadAllMeshes_succeeds [OF this, of program w] obtain sc' w' where
    l: "loadAllMeshes E program (pre @ d # post) w = Inr (sc', w')" by blast
  from loadAllMeshes_result [OF l] have
    a': "list_all2 (loadedFrom E program) (pre @ d # post) (meshes sc')"
    and g: "LogWarnNoMeshData d \<in> set (logged w')"
    using assms(1) by auto
  from a' obtain ms1 m ms2 where
    s': "meshes sc' = ms1 @ m # ms2"
    and p1: "list_all2 (loadedFrom E program) pre ms1"
    and pm: "loadedFrom E program d m"
    and p2: "list_all2 (loadedFrom E program) post ms2"
    by (auto simp: list_all2_append1 list_all2_Cons1)
  have len: "length ms1 = length pre" "length ms2 = length post"
    using p1 p2 by (auto dest: list_all2_lengthD)
  have e: "m = emptyMeshData" using loadedFrom_degenerate [OF assms(1) pm] .
  have n: "length (meshes sc') = length pre + 1 + length post"
    using s' len by simp
  have z: "meshes sc' ! length pre = emptyMeshData"
    using s' len e by (simp add: nth_append)
  have c: "\<exists>sc w1. loadAllMeshes E program (pre @ post) w = Inr (sc, w1)
             \<and> map meshGeometry (take (length pre) (meshes sc'))
                  = map meshGeometry (take (length pre) (meshes sc))
             \<and> map meshGeometry (drop (length pre + 1) (meshes sc'))
                  = map meshGeometry (drop (length pre) (meshes sc))"
    if ne: "pre @ post \<noteq> []"
  proof -
    from loadAllMeshes_succeeds [OF ne assms(2), of program w] obtain sc w1 where
      l0: "loadAllMeshes E program (pre @ post) w = Inr (sc, w1)" by blast
    from loadAllMeshes_result [OF l0] have
      a: "list_all2 (loadedFrom E program) (pre @ post) (meshes sc)" by auto
    then obtain ns1 ns2 where
      s: "meshes sc = ns1 @ ns2"
      and q1: "list_all2 (loadedFrom E program) pre ns1"
      and q2: "list_all2 (loadedFrom E program) post ns2"
      by (auto simp: list_all2_append1)
    have len0: "length ns1 = length pre"
      using q1 by (auto dest: list_all2_lengthD)
    have g1: "map meshGeometry ms1 = map meshGeometry ns1"
      using list_all2_geometry [OF q1 p1] .
    have g2: "map meshGeometry ms2 = map meshGeometry ns2"
      using list_all2_geometry [OF q2 p2] .
    have "map meshGeometry (take (length pre) (meshes sc'))
        = map meshGeometry (take (length pre) (meshes sc))"
      using s s' len len0 g1 by simp
    moreover have "map meshGeometry (drop (length pre + 1) (meshes sc'))
        = map meshGeometry (drop (length pre) (meshes sc))"
      using s s' len len0 g2 by simp
    ultimately show ?thesis using l0 by blast
  qed
  show ?thesis
    using l n z g c by blast
qed

lemma sample_scan:
  "foldl (scanLine exampleFiles) ([], []) sampleOBJ
     = ([(0, 0, 0), (1, 0, 0), (0, 1, 0)], [0, 1, 2, 2, 1, 0])"
  by (simp add: sampleOBJ_def scanLine_def Fields_def asciiSpace_def exampleFiles_def
      exampleExtern_def faceIndex_def Split_def Atoi_def isDigit_def digitVal_def wrap64_def)

lemma second_scan:
  "foldl (scanLine exampleFiles) ([], []) secondOBJ
     = ([(2, 4, - 2), (0, 0, 0), (1, 1, 1)], [0, 1, 2])"
  by (simp add: secondOBJ_def scanLine_def Fields_def asciiSpace_def exampleFiles_def
      exampleExtern_def faceIndex_def Split_def Atoi_def isDigit_def digitVal_def wrap64_def)

lemma faceless_scan:
  "foldl (scanLine exampleFiles) ([], []) facelessOBJ = ([(1, 2, 3)], [])"
  by (simp add: facelessOBJ_def scanLine_def Fields_def asciiSpace_def exampleFiles_def
      exampleExtern_def faceIndex_def Split_def Atoi_def isDigit_def digitVal_def wrap64_def)

lemma exampleFiles_open:
  "osOpen exampleFiles ''a.obj'' = Some sampleOBJ"
  "osOpen exampleFiles ''none.obj'' = Some facelessOBJ"
  "osOpen exampleFiles ''dir/b.obj'' = Some secondOBJ"
proof -
  have "ScanLines (unlines sampleOBJ) = sampleOBJ"
    by (rule ScanLines_unlines) (simp add: sampleOBJ_def MaxScanTokenSize_def dropCR_def)
  then show "osOpen exampleFiles ''a.obj'' = Some sampleOBJ"
    by (simp add: osOpen_def exampleFiles_def exampleExtern_def)
  have "ScanLines (unlines facelessOBJ) = facelessOBJ"
    by (rule ScanLines_unlines) (simp add: facelessOBJ_def MaxScanTokenSize_def dropCR_def)
  then show "osOpen exampleFiles ''none.obj'' = Some facelessOBJ"
    by (simp add: osOpen_def exampleFiles_def exampleExtern_def)
  have "ScanLines (unlines secondOBJ) = secondOBJ"
    by (rule ScanLines_unlines) (simp add: secondOBJ_def MaxScanTokenSize_def dropCR_def)
  then show "osOpen exampleFiles ''dir/b.obj'' = Some secondOBJ"
    by (simp add: osOpen_def exampleFiles_def exampleExtern_def)
qed

lemma faceless_degenerate: "degenerateFile exampleFiles ''none.obj''"
  by (simp add: degenerateFile_def exampleFiles_open faceless_scan)

lemma load_sample:
  "loadSingleMesh exampleFiles 1 ''a.obj'' w =
     Inr (\<lparr> vertices = [0, 0, 0, 1, 0, 0, 0, 1, 0], indices = [0, 1, 2, 2, 1, 0],
              bounds = \<lparr> minX = 0, minY = 0, minZ = 0, maxX = 1, maxY = 1, maxZ = 0 \<rparr>,
              vao = glNextName w, vbo = glNextName w + 1, ebo = glNextName w + 2 \<rparr>,
          w\<lparr> logged := logged w @ [LogLoaded 3 6,
                 LogMeshBounds \<lparr> minX = 0, minY = 0, minZ = 0, maxX = 1, maxY = 1, maxZ = 0 \<rparr>],
             glNextName := glNextName w + 3,
             glArrays := glArrays w @ [glNextName w],
             glBuffers := glBuffers w @ [glNextName w + 1, glNextName w + 2] \<rparr>)"
  by (simp add: loadSingleMesh_def loadOBJFile_def exampleFiles_open sample_scan flatten_def
      calculateBounds_def GenVertexArrays_def GenBuffers_def signed_divide_int_def)

lemma load_second:
  "loadSingleMesh exampleFiles 1 ''dir/b.obj'' w =
     Inr (\<lparr> vertices = [2, 4, - 2, 0, 0, 0, 1, 1, 1], indices = [0, 1, 2],
              bounds = \<lparr> minX = 0, minY = 0, minZ = - 2, maxX = 2, maxY = 4, maxZ = 1 \<rparr>,
              vao = glNextName w, vbo = glNextName w + 1, ebo = glNextName w + 2 \<rparr>,
          w\<lparr> logged := logged w @ [LogLoaded 3 3,
                 LogMeshBounds \<lparr> minX = 0, minY = 0, minZ = - 2, maxX = 2, maxY = 4, maxZ = 1 \<rparr>],
             glNextName := glNextName w + 3,
             glArrays := glArrays w @ [glNextName w],
             glBuffers := glBuffers w @ [glNextName w + 1, glNextName w + 2] \<rparr>)"
  by (simp add: loadSingleMesh_def loadOBJFile_def exampleFiles_open second_scan flatten_def
      calculateBounds_def GenVertexArrays_def GenBuffers_def signed_divide_int_def)

theorem degenerate_file_keeps_siblings_witness:
  "degenerateFile exampleFiles ''none.obj''
   \<and> list_all (\<lambda>f. osOpen exampleFiles f \<noteq> None) ([''a.obj''] @ [''dir/b.obj''])
   \<and> (\<exists>sc w1 sc' w'.
        loadAllMeshes exampleFiles 1 ([''a.obj''] @ [''dir/b.obj'']) initialWorld = Inr (sc, w1)
      \<and> loadAllMeshes exampleFiles 1 ([''a.obj''] @ ''none.obj'' # [''dir/b.obj'']) initialWorld
           = Inr (sc', w')
      \<and> map meshGeometry (meshes sc)
           = [([0, 0, 0, 1, 0, 0, 0, 1, 0], [0, 1, 2, 2, 1, 0],
               \<lparr> minX = 0, minY = 0, minZ = 0, maxX = 1, maxY = 1, maxZ = 0 \<rparr>),
              ([2, 4, - 2, 0, 0, 0, 1, 1, 1], [0, 1, 2],
               \<lparr> minX = 0, minY = 0, minZ = - 2, maxX = 2, maxY = 4, maxZ = 1 \<rparr>)]
      \<and> length (meshes sc') = 3
      \<and> meshes sc' ! 1 = emptyMeshData
      \<and> LogWarnNoMeshData ''none.obj'' \<in> set (logged w')
      \<and> map meshGeometry (take 1 (meshes sc'))
           = [([0, 0, 0, 1, 0, 0, 0, 1, 0], [0, 1, 2, 2, 1, 0],
               \<lparr> minX = 0, minY = 0, minZ = 0, maxX = 1, maxY = 1, maxZ = 0 \<rparr>)]
      \<and> map meshGeometry (drop 2 (meshes sc'))
           = [([2, 4, - 2, 0, 0, 0, 1, 1, 1], [0, 1, 2],
               \<lparr> minX = 0, minY = 0, minZ = - 2, maxX = 2, maxY = 4, maxZ = 1 \<rparr>)])"
proof -
  have o: "\<forall>f \<in> set ([''a.obj''] @ [''dir/b.obj'']). osOpen exampleFiles f \<noteq> None"
    by (simp add: exampleFiles_open)
  have ne: "[''a.obj''] @ [''dir/b.obj''] \<noteq> []"
    by simp
  from degenerate_file_keeps_siblings [OF faceless_degenerate o, of 1 initialWorld] ne
  obtain sc' w' sc w1 where
    l': "loadAllMeshes exampleFiles 1 ([''a.obj''] @ ''none.obj'' # [''dir/b.obj'']) initialWorld
           = Inr (sc', w')"
    and l: "loadAllMeshes exampleFiles 1 ([''a.obj''] @ [''dir/b.obj'']) initialWorld = Inr (sc, w1)"
    and c: "length (meshes sc') = length [''a.obj''] + 1 + length [''dir/b.obj'']"
      "meshes sc' ! length [''a.obj''] = emptyMeshData"
      "LogWarnNoMeshData ''none.obj'' \<in> set (logged w')"
      "map meshGeometry (take (length [''a.obj'']) (meshes sc'))
         = map meshGeometry (take (length [''a.obj'']) (meshes sc))"
      "map meshGeometry (drop (length [''a.obj''] + 1) (meshes sc'))
         = map meshGeometry (drop (length [''a.obj'']) (meshes sc))"
    by blast
  have g: "map meshGeometry (meshes sc)
           = [([0, 0, 0, 1, 0, 0, 0, 1, 0], [0, 1, 2, 2, 1, 0],
               \<lparr> minX = 0, minY = 0, minZ = 0, maxX = 1, maxY = 1, maxZ = 0 \<rparr>),
              ([2, 4, - 2, 0, 0, 0, 1, 1, 1], [0, 1, 2],
               \<lparr> minX = 0, minY = 0, minZ = - 2, maxX = 2, maxY = 4, maxZ = 1 \<rparr>)]"
    using l by (auto simp: loadAllMeshes_def load_sample load_second meshGeometry_def)
  have t: "map meshGeometry (take 1 (meshes sc'))
           = [([0, 0, 0, 1, 0, 0, 0, 1, 0], [0, 1, 2, 2, 1, 0],
               \<lparr> minX = 0, minY = 0, minZ = 0, maxX = 1, maxY = 1, maxZ = 0 \<rparr>)]"
    using c(4) g by (simp add: take_map [symmetric])
  have d: "map meshGeometry (drop 2 (meshes sc'))
           = [([2, 4, - 2, 0, 0, 0, 1, 1, 1], [0, 1, 2],
               \<lparr> minX = 0, minY = 0, minZ = - 2, maxX = 2, maxY = 4, maxZ = 1 \<rparr>)]"
    using c(5) g by (simp add: drop_map [symmetric] numeral_2_eq_2)
  have n: "length (meshes sc') = 3" "meshes sc' ! 1 = emptyMeshData"
    using c(1,2) by simp_all
  have o': "list_all (\<lambda>f. osOpen exampleFiles f \<noteq> None) ([''a.obj''] @ [''dir/b.obj''])"
    using o by (simp only: list_all_iff)
  show ?thesis
    by (rule conjI, rule faceless_degenerate, rule conjI, rule o', rule exI [of _ sc],
        rule exI [of _ w1], rule exI [of _ sc'], rule exI [of _ w'], intro conjI)
      (rule l l' g n c(3) t d)+
qed

subsection \<open>Hot reload\<close>

lemma loadOBJFile_dialogs:
  "loadOBJFile E f w = Inr (r, w') \<Longrightarrow> dialogsShown w' = dialogsShown w"
  by (auto simp: loadOBJFile_def Let_def split: option.splits)

lemma calculateBounds_dialogs:
  "calculateBounds vs w = Inr (b, w') \<Longrightarrow> dialogsShown w' = dialogsShown w"
  by (auto simp: calculateBounds_def split: list.splits sum.splits)

lemma loadSingleMesh_dialogs:
  "loadSingleMesh E p f w = Inr (m, w') \<Longrightarrow> dialogsShown w' = dialogsShown w"
  by (auto simp: loadSingleMesh_def GenVertexArrays_def GenBuffers_def Let_def
      split: sum.splits prod.splits if_splits
      dest!: loadOBJFile_dialogs calculateBounds_dialogs)

lemma loadRemaining_dialogs:
  "loadRemaining E p fs sc w = Inr (sc', w') \<Longrightarrow> dialogsShown w' = dialogsShown w"
proof (induction fs arbitrary: sc w)
  case Nil
  then show ?case by simp
next
  case (Cons f fs)
  then show ?case
    by (auto split: sum.splits prod.splits dest!: loadSingleMesh_dialogs)
qed

lemma loadAllMeshes_dialogs:
  "loadAllMeshes E p fs w = Inr (sc', w') \<Longrightarrow> dialogsShown w' = dialogsShown w"
  by (auto simp: loadAllMeshes_def initializeCamera_def Let_def
      split: list.splits sum.splits prod.splits
      dest!: loadSingleMesh_dialogs loadRemaining_dialogs)

lemma foldl_delete_dialogs:
  "dialogsShown (foldl (\<lambda>u m. DeleteBuffers (ebo m) (DeleteBuffers (vbo m)
       (DeleteVertexArrays (vao m) u))) w ms) = dialogsShown w"
  by (induction ms arbitrary: w) (auto simp: DeleteBuffers_def DeleteVertexArrays_def)

lemma cleanupScene_dialogs: "dialogsShown (cleanupScene w) = dialogsShown w"
  by (simp add: cleanupScene_def Let_def foldl_delete_dialogs)

lemma checkFileReload_dialogs:
  "dialogsShown (snd (checkFileReload E kb outcome w))
     = dialogsShown w + (if KeyF1 kb = Press then 1 else 0)"
  by (auto simp: checkFileReload_def selectOBJFiles_def Let_def
      split: dialogOutcome.splits list.splits)

lemma reloadStep_dialogs:
  "reloadStep E p kb outcome w = Inr w' \<Longrightarrow>
     dialogsShown w' = dialogsShown w + (if KeyF1 kb = Press then 1 else 0)"
proof -
  assume a: "reloadStep E p kb outcome w = Inr w'"
  obtain fs err w1 where c: "checkFileReload E kb outcome w = ((fs, err), w1)"
    by (metis surj_pair)
  have d: "dialogsShown w1 = dialogsShown w + (if KeyF1 kb = Press then 1 else 0)"
    using checkFileReload_dialogs [of E kb outcome w] c by simp
  show ?thesis
  proof (cases "err = None \<and> 0 < length fs")
    case True
    then obtain sc w2 where
      l: "loadAllMeshes E p fs (cleanupScene w1) = Inr (sc, w2)"
      and w': "w' = w2\<lparr> scene := sc, windowTitle := ''NavMesh Viewer - '' @ Join fs '', '' \<rparr>"
      using a c by (auto simp: reloadStep_def split: sum.splits)
    from loadAllMeshes_dialogs [OF l] have "dialogsShown w2 = dialogsShown w1"
      by (simp add: cleanupScene_dialogs)
    then show ?thesis using w' d by simp
  next
    case False
    then have "w' = w1" using a c by (auto simp: reloadStep_def)
    then show ?thesis using d by simp
  qed
qed

lemma reloadFrames_dialogs:
  "reloadFrames E p frames w = Inr w' \<Longrightarrow>
     dialogsShown w' = dialogsShown w + framesPressed (map (\<lambda>(kb, outcome). KeyF1 kb) frames)"
proof (induction frames arbitrary: w)
  case Nil
  then show ?case by (simp add: framesPressed_def)
next
  case (Cons fr frames)
  obtain kb outcome where fr: "fr = (kb, outcome)" by (cases fr)
  from Cons.prems obtain w1 where
    s: "reloadStep E p kb outcome w = Inr w1" and r: "reloadFrames E p frames w1 = Inr w'"
    by (auto simp: fr split: sum.splits)
  from Cons.IH [OF r] reloadStep_dialogs [OF s] show ?case
    by (simp add: fr framesPressed_def)
qed

text \<open>
  C6. The reload check acts on the state of F1, not on its change: the file-selection
  dialog is shown in exactly the frames whose reload check finds F1 down, whatever the
  key's state in the frame before. A check shows one dialog when F1 is down and none
  otherwise, and over any run of frames that ends without a fatal error as many dialogs
  are shown as there are frames with F1 down. \<open>checkFileReload\<close> keeps no previous
  state of the key, where \<open>processInput\<close> keeps \<open>lastShiftState\<close> and advances the speed
  on the change of the shift key from released to pressed only.
\<close>

theorem reload_dialog_every_pressed_frame:
  "dialogsShown (snd (checkFileReload E kb outcome w))
     = dialogsShown w + (if KeyF1 kb = Press then 1 else 0)
   \<and> (reloadFrames E p frames w = Inr w' \<longrightarrow>
        dialogsShown w' = dialogsShown w + framesPressed (map (\<lambda>(kb, outcome). KeyF1 kb) frames))"
  using checkFileReload_dialogs [of E kb outcome w] reloadFrames_dialogs [of E p frames w w']
  by blast

theorem reload_dialog_every_pressed_frame_witness:
  "reloadFrames (exampleExtern []) 1
      [(keysWithF1 Release, Canceled), (keysWithF1 Press, Canceled), (keysWithF1 Press, Selected []),
       (keysWithF1 Press, Failed), (keysWithF1 Release, Canceled)] loadedWorld
     = Inr (loadedWorld\<lparr>dialogsShown := 3\<rparr>)
   \<and> dialogsShown (loadedWorld\<lparr>dialogsShown := 3\<rparr>) = dialogsShown loadedWorld
       + framesPressed [Release, Press, Press, Press, Release]
   \<and> dialogsShown (snd (checkFileReload (exampleExtern []) (keysWithF1 Press) Canceled loadedWorld))
       = dialogsShown loadedWorld + 1"
proof -
  have r: "reloadFrames (exampleExtern []) 1
      [(keysWithF1 Release, Canceled), (keysWithF1 Press, Canceled), (keysWithF1 Press, Selected []),
       (keysWithF1 Press, Failed), (keysWithF1 Release, Canceled)] loadedWorld
     = Inr (loadedWorld\<lparr>dialogsShown := 3\<rparr>)"
    by (simp add: reloadStep_def checkFileReload_def selectOBJFiles_def keysWithF1_def
        loadedWorld_def initialWorld_def)
  have c: "dialogsShown (loadedWorld\<lparr>dialogsShown := 3\<rparr>) = dialogsShown loadedWorld
       + framesPressed [Release, Press, Press, Press, Release]"
    using reload_dialog_every_pressed_frame [THEN conjunct2, THEN mp, OF r]
    by (simp add: keysWithF1_def)
  have s: "dialogsShown (snd (checkFileReload (exampleExtern []) (keysWithF1 Press) Canceled
              loadedWorld)) = dialogsShown loadedWorld + 1"
    using reload_dialog_every_pressed_frame
      [of "exampleExtern []" "keysWithF1 Press" Canceled loadedWorld, THEN conjunct1]
    by (simp add: keysWithF1_def)
  show ?thesis
    by (intro conjI) (rule r c s)+
qed

text \<open>
  C6 as stated fails of the program: with F1 held over three frames, each dialog being
  cancelled, three dialogs are shown, though the key went from released to pressed once.
\<close>

theorem reload_dialog_while_held_counterexample:
  "reloadFrames (exampleExtern []) 1
      [(keysWithF1 Press, Canceled), (keysWithF1 Press, Canceled), (keysWithF1 Press, Canceled)]
      loadedWorld = Inr (loadedWorld\<lparr>dialogsShown := 3\<rparr>)
   \<and> KeyF1 (keysWithF1 Press) = Press
   \<and> pressEdges Release [Press, Press, Press] = 1
   \<and> dialogsShown loadedWorld = 0"
  by (simp add: reloadStep_def checkFileReload_def selectOBJFiles_def keysWithF1_def
        loadedWorld_def initialWorld_def)

lemma reloadStep_idle:
  assumes "KeyF1 kb \<noteq> Press \<or> outcome = Canceled \<or> outcome = Failed \<or> outcome = Selected []"
  shows "reloadStep E program kb outcome w
           = Inr (w\<lparr>dialogsShown := dialogsShown w + (if KeyF1 kb = Press then 1 else 0)\<rparr>)"
  using assms
  by (auto simp: reloadStep_def checkFileReload_def selectOBJFiles_def)

lemma exampleFiles_dir: "filepathDir exampleFiles ''dir/b.obj'' = ''dir''"
  by (simp add: exampleFiles_def exampleExtern_def Split_def)

lemma reload_selected_example:
  "\<exists>w'. reloadStep exampleFiles 1 (keysWithF1 Press) (Selected [''dir/b.obj'']) loadedWorld = Inr w'
     \<and> meshes (scene w')
          = [\<lparr> vertices = [2, 4, - 2, 0, 0, 0, 1, 1, 1], indices = [0, 1, 2],
               bounds = \<lparr> minX = 0, minY = 0, minZ = - 2, maxX = 2, maxY = 4, maxZ = 1 \<rparr>,
               vao = 4, vbo = 5, ebo = 6 \<rparr>]
     \<and> scene_bounds (scene w') = \<lparr> minX = 0, minY = 0, minZ = - 2, maxX = 2, maxY = 4, maxZ = 1 \<rparr>
     \<and> glArrays w' = [4] \<and> glBuffers w' = [5, 6]
     \<and> windowTitle w' = ''NavMesh Viewer - dir/b.obj''
     \<and> lastDirectory w' = ''dir''
     \<and> pitch w' = - 20"
  by (simp add: reloadStep_def checkFileReload_def selectOBJFiles_def keysWithF1_def
      loadAllMeshes_def load_second cleanupScene_def DeleteBuffers_def DeleteVertexArrays_def
      loadedWorld_def initialWorld_def initializeCamera_def Let_def exampleFiles_dir)

text \<open>
  C7. When F1 is not down, or the file selection is cancelled, fails or comes back with
  an empty list, the reload check in \<open>main\<close> changes nothing but the count of dialogs
  shown: the scene with its mesh records and combined bounds, the object names held and
  the window title are as before. So a check that changes any of them was made with F1
  down and a selection of at least one path.
\<close>

theorem reload_without_selection_keeps_scene:
  "(KeyF1 kb \<noteq> Press \<or> outcome = Canceled \<or> outcome = Failed \<or> outcome = Selected [] \<longrightarrow>
      (\<exists>w'. reloadStep E program kb outcome w = Inr w'
         \<and> w' = w\<lparr>dialogsShown := dialogsShown w + (if KeyF1 kb = Press then 1 else 0)\<rparr>
         \<and> scene w' = scene w \<and> meshes (scene w') = meshes (scene w)
         \<and> scene_bounds (scene w') = scene_bounds (scene w)
         \<and> glArrays w' = glArrays w \<and> glBuffers w' = glBuffers w
         \<and> windowTitle w' = windowTitle w))
   \<and> (\<forall>w'. reloadStep E program kb outcome w = Inr w'
          \<and> (scene w' \<noteq> scene w \<or> glArrays w' \<noteq> glArrays w \<or> glBuffers w' \<noteq> glBuffers w
               \<or> windowTitle w' \<noteq> windowTitle w)
        \<longrightarrow> KeyF1 kb = Press \<and> (\<exists>first rest. outcome = Selected (first # rest)))"
proof (intro conjI impI allI)
  assume "KeyF1 kb \<noteq> Press \<or> outcome = Canceled \<or> outcome = Failed \<or> outcome = Selected []"
  from reloadStep_idle [OF this, of E program w]
  show "\<exists>w'. reloadStep E program kb outcome w = Inr w'
         \<and> w' = w\<lparr>dialogsShown := dialogsShown w + (if KeyF1 kb = Press then 1 else 0)\<rparr>
         \<and> scene w' = scene w \<and> meshes (scene w') = meshes (scene w)
         \<and> scene_bounds (scene w') = scene_bounds (scene w)
         \<and> glArrays w' = glArrays w \<and> glBuffers w' = glBuffers w
         \<and> windowTitle w' = windowTitle w"
    by simp
next
  fix w'
  assume a: "reloadStep E program kb outcome w = Inr w'
          \<and> (scene w' \<noteq> scene w \<or> glArrays w' \<noteq> glArrays w \<or> glBuffers w' \<noteq> glBuffers w
               \<or> windowTitle w' \<noteq> windowTitle w)"
  have n: "\<not> (KeyF1 kb \<noteq> Press \<or> outcome = Canceled \<or> outcome = Failed \<or> outcome = Selected [])"
  proof
    assume "KeyF1 kb \<noteq> Press \<or> outcome = Canceled \<or> outcome = Failed \<or> outcome = Selected []"
    from reloadStep_idle [OF this, of E program w] a show False by auto
  qed
  then show "KeyF1 kb = Press" by blast
  from n show "\<exists>first rest. outcome = Selected (first # rest)"
    by (cases outcome) (auto simp: neq_Nil_conv)
qed

theorem reload_without_selection_keeps_scene_witness:
  "reloadStep exampleFiles 1 (keysWithF1 Press) Canceled loadedWorld
     = Inr (loadedWorld\<lparr>dialogsShown := 1\<rparr>)
   \<and> reloadStep exampleFiles 1 (keysWithF1 Press) (Selected []) loadedWorld
     = Inr (loadedWorld\<lparr>dialogsShown := 1\<rparr>)
   \<and> scene (loadedWorld\<lparr>dialogsShown := 1\<rparr>) = scene loadedWorld
   \<and> windowTitle (loadedWorld\<lparr>dialogsShown := 1\<rparr>) = ''NavMesh Viewer - old.obj''
   \<and> (\<exists>w'. reloadStep exampleFiles 1 (keysWithF1 Press) (Selected [''dir/b.obj'']) loadedWorld
              = Inr w'
          \<and> windowTitle w' \<noteq> windowTitle loadedWorld)
   \<and> KeyF1 (keysWithF1 Press) = Press
   \<and> (\<exists>first rest. Selected [''dir/b.obj''] = Selected (first # rest))"
proof -
  have d: "dialogsShown loadedWorld = 0" "windowTitle loadedWorld = ''NavMesh Viewer - old.obj''"
    by (simp_all add: loadedWorld_def initialWorld_def)
  have k: "KeyF1 (keysWithF1 Press) = Press" by (simp add: keysWithF1_def)
  note t1 = reload_without_selection_keeps_scene
    [of "keysWithF1 Press" Canceled exampleFiles 1 loadedWorld, THEN conjunct1, THEN mp]
  note t2 = reload_without_selection_keeps_scene
    [of "keysWithF1 Press" "Selected []" exampleFiles 1 loadedWorld, THEN conjunct1, THEN mp]
  have a: "reloadStep exampleFiles 1 (keysWithF1 Press) Canceled loadedWorld
     = Inr (loadedWorld\<lparr>dialogsShown := 1\<rparr>)"
    using t1 d k by simp
  have b: "reloadStep exampleFiles 1 (keysWithF1 Press) (Selected []) loadedWorld
     = Inr (loadedWorld\<lparr>dialogsShown := 1\<rparr>)"
    using t2 d k by simp
  from reload_selected_example obtain w' where
    s: "reloadStep exampleFiles 1 (keysWithF1 Press) (Selected [''dir/b.obj'']) loadedWorld = Inr w'"
    and ti: "windowTitle w' = ''NavMesh Viewer - dir/b.obj''"
    by blast
  have ne: "windowTitle w' \<noteq> windowTitle loadedWorld"
    using ti d by simp
  from reload_without_selection_keeps_scene
    [of "keysWithF1 Press" "Selected [''dir/b.obj'']" exampleFiles 1 loadedWorld,
     THEN conjunct2, rule_format, of w'] s ne
  have c: "KeyF1 (keysWithF1 Press) = Press
       \<and> (\<exists>first rest. Selected [''dir/b.obj''] = Selected (first # rest))"
    by blast
  have e: "\<exists>w'. reloadStep exampleFiles 1 (keysWithF1 Press) (Selected [''dir/b.obj'']) loadedWorld
              = Inr w' \<and> windowTitle w' \<noteq> windowTitle loadedWorld"
    using s ne by blast
  show ?thesis
    using a b c e d by simp
qed

end
